theory Spec2Isabelle
  imports Main "HOL-Library.Word" "HOL-Library.AList"
begin

section \<open>Token service (jwt.go)\<close>

subsection \<open>Time, identities and the signed-token library\<close>

text \<open>
  A \<open>time.Time\<close> is the number of nanoseconds since Go's zero time; a
  \<open>time.Duration\<close> is a number of nanoseconds. Both are unbounded integers here: no claim
  depends on the wrap-around of the 64-bit duration. Go's \<open>uint\<close> is a 64-bit word.
  Every operation of the service reads the clock; the reading is the argument \<open>now\<close> of
  the operation (one reading per call).
\<close>

type_synonym time = int
type_synonym duration = int
type_synonym uint = "64 word"

text \<open>
  The package \<open>github.com/golang-jwt/jwt/v5\<close> is not part of the repository. The service
  uses four things of it, modelled here as the library documents them:
  \<^item> \<open>jwt.NewNumericDate t\<close> is \<open>t.Truncate(jwt.TimePrecision)\<close>, and the repository never
    changes \<open>jwt.TimePrecision\<close> from its default of one second;
  \<^item> \<open>SignedString\<close> serialises header and claims and appends the HMAC of both;
  \<^item> \<open>ParseUnverified\<close> decodes the three segments and checks nothing else;
  \<^item> \<open>ParseWithClaims\<close> decodes, asks the key function for the key, verifies the
    signature and validates the claims against the clock: \<open>exp\<close> must be after now
    (\<open>now.Before(exp)\<close>), \<open>nbf\<close> must not be after now; \<open>iat\<close> is not checked by default.
  A token string is kept symbolic: either a string that does not decode to a token, or
  the serialisation of a signing method, the key that signed it and the claims. The HMAC
  is ideal: a signature verifies under a key exactly when that key produced it.
\<close>

definition TimePrecision :: duration where
  "TimePrecision = 1000000000"

definition Truncate :: "time \<Rightarrow> duration \<Rightarrow> time" where
  "Truncate t d = (if d \<le> 0 then t else t - t mod d)"

definition NewNumericDate :: "time \<Rightarrow> time" where
  "NewNumericDate t = Truncate t TimePrecision"

record JWTClaims =
  UserID :: uint
  JTI :: string
  Issuer :: string
  Subject :: string
  ExpiresAt :: "time option"
  NotBefore :: "time option"
  IssuedAt :: "time option"

datatype signing_method = HS256 | HS384 | HS512 | NotHMAC

datatype token_string =
    Malformed string
  | Signed signing_method string JWTClaims

datatype parse_error =
    ErrTokenMalformed
  | ErrTokenUnverifiable
  | ErrTokenSignatureInvalid
  | ErrTokenExpired
  | ErrTokenNotValidYet

definition SignedString :: "signing_method \<Rightarrow> string \<Rightarrow> JWTClaims \<Rightarrow> token_string" where
  "SignedString m key claims = Signed m key claims"

definition ParseUnverified :: "token_string \<Rightarrow> parse_error + JWTClaims" where
  "ParseUnverified t = (case t of Malformed _ \<Rightarrow> Inl ErrTokenMalformed | Signed m k c \<Rightarrow> Inr c)"

definition ValidateClaims :: "time \<Rightarrow> JWTClaims \<Rightarrow> parse_error option" where
  "ValidateClaims now c =
     (if (case ExpiresAt c of None \<Rightarrow> False | Some e \<Rightarrow> \<not> now < e) then Some ErrTokenExpired
      else if (case NotBefore c of None \<Rightarrow> False | Some n \<Rightarrow> now < n) then Some ErrTokenNotValidYet
      else None)"

text \<open>
  The key function of \<open>ParseToken\<close> refuses every signing method that is not an HMAC and
  returns the service's key otherwise.
\<close>

definition ParseWithClaims :: "string \<Rightarrow> time \<Rightarrow> token_string \<Rightarrow> parse_error + JWTClaims" where
  "ParseWithClaims key now t =
     (case t of
        Malformed _ \<Rightarrow> Inl ErrTokenMalformed
      | Signed m k c \<Rightarrow>
          if m = NotHMAC then Inl ErrTokenUnverifiable
          else if k \<noteq> key then Inl ErrTokenSignatureInvalid
          else (case ValidateClaims now c of Some e \<Rightarrow> Inl e | None \<Rightarrow> Inr c))"

subsection \<open>Configuration and state of the service\<close>

text \<open>
  The field \<open>Issuer\<close> of \<open>JWTConfig\<close> is \<open>IssuerName\<close> here; \<open>Issuer\<close> is the
  field of the claims.
\<close>

record JWTConfig =
  SecretKey :: string
  DefaultExpiration :: duration
  RefreshExpiration :: duration
  IssuerName :: string
  AllowRefresh :: bool
  MaxRefreshCount :: int

definition Hour :: duration where
  "Hour = 3600 * 1000000000"

definition DefaultJWTConfig :: JWTConfig where
  "DefaultJWTConfig =
     \<lparr> SecretKey = ''default-secret-key'',
       DefaultExpiration = 24 * Hour,
       RefreshExpiration = 7 * 24 * Hour,
       IssuerName = ''aigo_service_auth'',
       AllowRefresh = True,
       MaxRefreshCount = 5 \<rparr>"

text \<open>
  The four maps of \<open>jwtService\<close>. The revocation map is an association list, because
  \<open>CleanupExpiredTokens\<close> ranges over its keys; the other three are only read and written
  at single keys. The mutex is left out: the operations are modelled one at a time.
\<close>

record jwtService =
  config :: JWTConfig
  secretKey :: string
  revokedTokens :: "(token_string \<times> time) list"
  userTokens :: "uint \<rightharpoonup> token_string list"
  tokenUsers :: "token_string \<rightharpoonup> uint"
  refreshCounts :: "token_string \<rightharpoonup> int"

definition NewJWTService :: "JWTConfig \<Rightarrow> jwtService" where
  "NewJWTService cfg =
     \<lparr> config = cfg, secretKey = SecretKey cfg, revokedTokens = [],
       userTokens = Map.empty, tokenUsers = Map.empty, refreshCounts = Map.empty \<rparr>"

datatype jwt_error =
    ErrUserIDZero
  | ErrExpirationNotPositive
  | ErrTokenEmpty
  | ErrTokenRevoked
  | ErrParseFailed parse_error
  | ErrRefreshNotAllowed
  | ErrParseOriginalFailed jwt_error
  | ErrRefreshLimit
  | ErrRefreshTooEarly
  | ErrGenerateNewFailed jwt_error
  | ErrRevokeOriginalFailed jwt_error

subsection \<open>Operations\<close>

text \<open>\<open>hex.EncodeToString\<close> and the \<open>%d\<close> of \<open>fmt.Sprintf\<close>.\<close>

definition hextable :: string where
  "hextable = ''0123456789abcdef''"

definition EncodeToString :: "8 word list \<Rightarrow> string" where
  "EncodeToString bs =
     concat (map (\<lambda>b. [hextable ! (unat b div 16), hextable ! (unat b mod 16)]) bs)"

fun decimal :: "nat \<Rightarrow> string" where
  "decimal n =
     (if n < 10 then [char_of (48 + n)] else decimal (n div 10) @ [char_of (48 + n mod 10)])"

declare decimal.simps [simp del]

text \<open>\<open>GenerateJTI\<close>: \<open>rnd\<close> is the 16-byte buffer after \<open>rand.Read\<close>.\<close>

definition GenerateJTI :: "8 word list \<Rightarrow> string" where
  "GenerateJTI rnd = EncodeToString rnd"

definition EmptyToken :: token_string where
  "EmptyToken = Malformed []"

text \<open>
  The claims and the token string that \<open>GenerateTokenWithExpiration\<close> builds: the
  statements of a \<open>JWTClaims\<close> literal and of \<open>jwt.NewWithClaims\<close> with \<open>SignedString\<close>.
\<close>

definition newClaims :: "JWTConfig \<Rightarrow> time \<Rightarrow> 8 word list \<Rightarrow> uint \<Rightarrow> duration \<Rightarrow> JWTClaims" where
  "newClaims cfg now rnd userID expiration =
     \<lparr> UserID = userID, JTI = GenerateJTI rnd, Issuer = IssuerName cfg,
       Subject = ''user:'' @ decimal (unat userID),
       ExpiresAt = Some (NewNumericDate (now + expiration)),
       NotBefore = Some (NewNumericDate now),
       IssuedAt = Some (NewNumericDate now) \<rparr>"

definition issuedToken :: "jwtService \<Rightarrow> time \<Rightarrow> 8 word list \<Rightarrow> uint \<Rightarrow> duration \<Rightarrow> token_string" where
  "issuedToken s now rnd userID expiration =
     SignedString HS256 (secretKey s) (newClaims (config s) now rnd userID expiration)"

definition GenerateTokenWithExpiration ::
  "time \<Rightarrow> 8 word list \<Rightarrow> uint \<Rightarrow> duration \<Rightarrow> jwtService \<Rightarrow> jwt_error + (token_string \<times> jwtService)" where
  "GenerateTokenWithExpiration now rnd userID expiration s =
     (if userID = 0 then Inl ErrUserIDZero
      else if expiration \<le> 0 then Inl ErrExpirationNotPositive
      else
        let tokenString = issuedToken s now rnd userID expiration
        in Inr (tokenString,
                s\<lparr> userTokens := (userTokens s)
                       (userID \<mapsto> (case userTokens s userID of None \<Rightarrow> [] | Some ts \<Rightarrow> ts) @ [tokenString]),
                   tokenUsers := (tokenUsers s)(tokenString \<mapsto> userID) \<rparr>))"

definition GenerateToken ::
  "time \<Rightarrow> 8 word list \<Rightarrow> uint \<Rightarrow> jwtService \<Rightarrow> jwt_error + (token_string \<times> jwtService)" where
  "GenerateToken now rnd userID s =
     GenerateTokenWithExpiration now rnd userID (DefaultExpiration (config s)) s"

definition ParseToken :: "time \<Rightarrow> token_string \<Rightarrow> jwtService \<Rightarrow> jwt_error + JWTClaims" where
  "ParseToken now tokenString s =
     (if tokenString = EmptyToken then Inl ErrTokenEmpty
      else case ParseWithClaims (secretKey s) now tokenString of
             Inl e \<Rightarrow> Inl (ErrParseFailed e)
           | Inr claims \<Rightarrow> Inr claims)"

definition IsTokenRevoked :: "token_string \<Rightarrow> jwtService \<Rightarrow> bool" where
  "IsTokenRevoked tokenString s = (map_of (revokedTokens s) tokenString \<noteq> None)"

definition ValidateToken :: "time \<Rightarrow> token_string \<Rightarrow> jwtService \<Rightarrow> jwt_error + uint" where
  "ValidateToken now tokenString s =
     (if tokenString = EmptyToken then Inl ErrTokenEmpty
      else if IsTokenRevoked tokenString s then Inl ErrTokenRevoked
      else case ParseToken now tokenString s of
             Inl e \<Rightarrow> Inl e
           | Inr claims \<Rightarrow> Inr (UserID claims))"

definition RevokeToken :: "time \<Rightarrow> token_string \<Rightarrow> jwtService \<Rightarrow> jwt_error + jwtService" where
  "RevokeToken now tokenString s =
     (if tokenString = EmptyToken then Inl ErrTokenEmpty
      else
        let s1 = s\<lparr> revokedTokens := AList.update tokenString now (revokedTokens s) \<rparr>;
            s2 = (case tokenUsers s1 tokenString of
                    None \<Rightarrow> s1
                  | Some userID \<Rightarrow>
                      (let s' = (case userTokens s1 userID of
                                   None \<Rightarrow> s1
                                 | Some tokens \<Rightarrow>
                                     s1\<lparr> userTokens := (userTokens s1)
                                           (userID \<mapsto> filter (\<lambda>token. token \<noteq> tokenString) tokens) \<rparr>)
                       in s'\<lparr> tokenUsers := (tokenUsers s')(tokenString := None) \<rparr>))
        in Inr (s2\<lparr> refreshCounts := (refreshCounts s2)(tokenString := None) \<rparr>))"

definition parseTokenUnsafe :: "token_string \<Rightarrow> parse_error + JWTClaims" where
  "parseTokenUnsafe tokenString = ParseUnverified tokenString"

text \<open>
  \<open>CleanupExpiredTokens\<close>: the first loop collects the keys to drop, the second deletes
  them.
\<close>

definition cleanupCandidate :: "time \<Rightarrow> token_string \<Rightarrow> bool" where
  "cleanupCandidate now tokenString =
     (case parseTokenUnsafe tokenString of
        Inl err \<Rightarrow> True
      | Inr claims \<Rightarrow> (case ExpiresAt claims of None \<Rightarrow> False | Some e \<Rightarrow> e < now))"

definition CleanupExpiredTokens :: "time \<Rightarrow> jwtService \<Rightarrow> jwtService" where
  "CleanupExpiredTokens now s =
     (let expiredTokens = filter (cleanupCandidate now) (map fst (revokedTokens s))
      in s\<lparr> revokedTokens := fold AList.delete expiredTokens (revokedTokens s) \<rparr>)"

text \<open>\<open>s.refreshCounts[tokenString]\<close>: a missing key reads as zero.\<close>

definition refreshCountOf :: "jwtService \<Rightarrow> token_string \<Rightarrow> int" where
  "refreshCountOf s tokenString = (case refreshCounts s tokenString of None \<Rightarrow> 0 | Some n \<Rightarrow> n)"

text \<open>
  \<open>RefreshToken\<close>. The last error branch is the roll-back of the source; it cannot be
  taken, since \<open>RevokeToken\<close> fails on the empty token only.
\<close>

definition RefreshToken ::
  "time \<Rightarrow> 8 word list \<Rightarrow> token_string \<Rightarrow> jwtService \<Rightarrow> jwt_error + (token_string \<times> jwtService)" where
  "RefreshToken now rnd tokenString s =
     (if \<not> AllowRefresh (config s) then Inl ErrRefreshNotAllowed
      else if tokenString = EmptyToken then Inl ErrTokenEmpty
      else case ParseToken now tokenString s of
        Inl e \<Rightarrow> Inl (ErrParseOriginalFailed e)
      | Inr claims \<Rightarrow>
          let refreshCount = refreshCountOf s tokenString in
          if refreshCount \<ge> MaxRefreshCount (config s) then Inl ErrRefreshLimit
          else if (case ExpiresAt claims of
                     None \<Rightarrow> False
                   | Some e \<Rightarrow> now < e - RefreshExpiration (config s))
          then Inl ErrRefreshTooEarly
          else case GenerateToken now rnd (UserID claims) s of
            Inl e \<Rightarrow> Inl (ErrGenerateNewFailed e)
          | Inr (newToken, s1) \<Rightarrow>
              let s2 = s1\<lparr> refreshCounts := (refreshCounts s1)(newToken \<mapsto> refreshCount + 1) \<rparr> in
              (case RevokeToken now tokenString s2 of
                 Inl e \<Rightarrow> Inl (ErrRevokeOriginalFailed e)
               | Inr s3 \<Rightarrow> Inr (newToken, s3)))"

definition revokeIndexed :: "time \<Rightarrow> token_string \<Rightarrow> jwtService \<Rightarrow> jwtService" where
  "revokeIndexed now tokenString s =
     s\<lparr> revokedTokens := AList.update tokenString now (revokedTokens s),
        tokenUsers := (tokenUsers s)(tokenString := None),
        refreshCounts := (refreshCounts s)(tokenString := None) \<rparr>"

definition RevokeAllUserTokens :: "time \<Rightarrow> uint \<Rightarrow> jwtService \<Rightarrow> jwt_error + jwtService" where
  "RevokeAllUserTokens now userID s =
     (if userID = 0 then Inl ErrUserIDZero
      else case userTokens s userID of
        None \<Rightarrow> Inr s
      | Some tokens \<Rightarrow>
          (let s1 = fold (revokeIndexed now) tokens s
           in Inr (s1\<lparr> userTokens := (userTokens s1)(userID := None) \<rparr>)))"

subsection \<open>Runs of the service\<close>

text \<open>
  The operations that change the state, each with the clock reading of its call. A failed
  call leaves the state as it was. \<open>GenerateToken\<close> is \<open>OpGenerate\<close> with the configured
  lifetime; \<open>ValidateToken\<close>, \<open>ParseToken\<close>, \<open>IsTokenRevoked\<close> and
  \<open>GetTokenRemainingTime\<close> change nothing.
\<close>

datatype operation =
    OpGenerate "8 word list" uint duration
  | OpRevoke token_string
  | OpRefresh "8 word list" token_string
  | OpRevokeAll uint
  | OpCleanup

fun apply_operation :: "time \<Rightarrow> operation \<Rightarrow> jwtService \<Rightarrow> jwtService" where
  "apply_operation now (OpGenerate rnd userID expiration) s =
     (case GenerateTokenWithExpiration now rnd userID expiration s of Inl e \<Rightarrow> s | Inr (t, s') \<Rightarrow> s')"
| "apply_operation now (OpRevoke tokenString) s =
     (case RevokeToken now tokenString s of Inl e \<Rightarrow> s | Inr s' \<Rightarrow> s')"
| "apply_operation now (OpRefresh rnd tokenString) s =
     (case RefreshToken now rnd tokenString s of Inl e \<Rightarrow> s | Inr (t, s') \<Rightarrow> s')"
| "apply_operation now (OpRevokeAll userID) s =
     (case RevokeAllUserTokens now userID s of Inl e \<Rightarrow> s | Inr s' \<Rightarrow> s')"
| "apply_operation now OpCleanup s = CleanupExpiredTokens now s"

fun run_operations :: "(time \<times> operation) list \<Rightarrow> jwtService \<Rightarrow> jwtService" where
  "run_operations [] s = s"
| "run_operations ((now, opn) # rest) s = run_operations rest (apply_operation now opn s)"


text \<open>
  What a lineage needs in order to go on: at each call the current token parses (it is
  signed by the service and inside its validity period), the clock is inside the trailing
  refresh window, and the token string the call issues is not the one it refreshes (the
  random JTI alone makes them differ).
\<close>

definition refreshWindowOpen :: "JWTConfig \<Rightarrow> time \<Rightarrow> JWTClaims \<Rightarrow> bool" where
  "refreshWindowOpen cfg now claims =
     (case ExpiresAt claims of None \<Rightarrow> True | Some e \<Rightarrow> e - RefreshExpiration cfg \<le> now)"


section \<open>Password component\<close>

text \<open>
  A Go string is a byte string, read as UTF-8 where the source ranges over its runes.
  \<open>countUniqueChars\<close> and \<open>strings.ToLower\<close> are modelled on the runes, with the decoder
  and encoder of \<open>unicode/utf8\<close>. In the generator, \<open>removeAmbiguousChars\<close> and the
  \<open>[]rune\<close> conversion of \<open>ensureRequirements\<close> are modelled on the bytes, which is the
  same on ASCII text; the built-in character sets are ASCII.
\<close>

subsection \<open>Character sets and string helpers\<close>

definition LowerChars :: string where
  "LowerChars = ''abcdefghijklmnopqrstuvwxyz''"

definition UpperChars :: string where
  "UpperChars = ''ABCDEFGHIJKLMNOPQRSTUVWXYZ''"

definition NumberChars :: string where
  "NumberChars = ''0123456789''"

definition SymbolChars :: string where
  "SymbolChars = ''!@#$%^&*()_+-=[]{}|;:,.<>?''"

definition AmbiguousChars :: string where
  "AmbiguousChars = ''0O1lI|'' @ [char_of (96 :: nat)]"

definition ContainsAny :: "string \<Rightarrow> string \<Rightarrow> bool" where
  "ContainsAny s chars = (\<exists>c \<in> set s. c \<in> set chars)"

text \<open>
  \<open>utf8.DecodeRuneInString\<close>, which is also what a \<open>range\<close> loop over a string does: the
  rune at the head of the bytes and its width. A byte that starts no valid encoding
  yields \<open>RuneError\<close> with width 1.
\<close>

definition RuneError :: nat where
  "RuneError = 65533"

fun decodeRune :: "nat list \<Rightarrow> nat \<times> nat" where
  "decodeRune [] = (RuneError, 0)"
| "decodeRune (s0 # rest) =
     (if s0 < 128 then (s0, 1)
      else if s0 < 194 \<or> 244 < s0 then (RuneError, 1)
      else
        let sz = (if s0 < 224 then 2 else if s0 < 240 then 3 else 4 :: nat);
            lo = (if s0 = 224 then 160 else if s0 = 240 then 144 else 128 :: nat);
            hi = (if s0 = 237 then 159 else if s0 = 244 then 143 else 191 :: nat)
        in if length (s0 # rest) < sz then (RuneError, 1)
           else
             let s1 = rest ! 0 in
             if s1 < lo \<or> hi < s1 then (RuneError, 1)
             else if sz \<le> 2 then ((s0 mod 32) * 64 + s1 mod 64, 2)
             else
               let s2 = rest ! 1 in
               if s2 < 128 \<or> 191 < s2 then (RuneError, 1)
               else if sz \<le> 3 then ((s0 mod 16) * 4096 + (s1 mod 64) * 64 + s2 mod 64, 3)
               else
                 let s3 = rest ! 2 in
                 if s3 < 128 \<or> 191 < s3 then (RuneError, 1)
                 else ((s0 mod 8) * 262144 + (s1 mod 64) * 4096 + (s2 mod 64) * 64 + s3 mod 64, 4))"

text \<open>
  The runes of a byte string, as \<open>for _, char := range s\<close> yields them. The width of a
  rune decoded from a non-empty string is at least 1, so after the head byte \<open>w - 1\<close>
  more bytes are dropped.
\<close>

fun runesOf :: "nat list \<Rightarrow> nat list" where
  "runesOf [] = []"
| "runesOf (s0 # rest) =
     (case decodeRune (s0 # rest) of (r, w) \<Rightarrow> r # runesOf (drop (w - 1) rest))"

definition runes :: "string \<Rightarrow> nat list" where
  "runes s = runesOf (map of_char s)"

text \<open>\<open>utf8.AppendRune\<close>: a rune beyond \<open>MaxRune\<close> or a surrogate is written as \<open>RuneError\<close>.\<close>

definition encodeRune :: "nat \<Rightarrow> string" where
  "encodeRune r =
     map char_of
       (if r < 128 then [r]
        else if r \<le> 2047 then [192 + r div 64, 128 + r mod 64]
        else if r > 1114111 \<or> (55296 \<le> r \<and> r \<le> 57343) then [239, 191, 189]
        else if r \<le> 65535 then [224 + r div 4096, 128 + (r div 64) mod 64, 128 + r mod 64]
        else [240 + r div 262144, 128 + (r div 4096) mod 64, 128 + (r div 64) mod 64,
              128 + r mod 64])"

text \<open>
  \<open>strings.Map\<close> with a mapping that drops no rune: every rune of the string is mapped
  and written back. (The source returns the string itself when no rune changes and no
  byte is invalid; re-encoding the runes of valid UTF-8 gives the same bytes.)
\<close>

definition Map_string :: "(nat \<Rightarrow> nat) \<Rightarrow> string \<Rightarrow> string" where
  "Map_string mapping s = concat (map (\<lambda>c. encodeRune (mapping c)) (runes s))"

text \<open>
  \<open>unicode.ToLower\<close>: an ASCII rune is lower-cased directly; any other rune is looked up
  in the case tables of the \<open>unicode\<close> package, which are not part of the repository and
  are the parameter \<open>caseTable\<close>.
\<close>

definition unicode_ToLower :: "(nat \<Rightarrow> nat) \<Rightarrow> nat \<Rightarrow> nat" where
  "unicode_ToLower caseTable r =
     (if r < 128 then (if 65 \<le> r \<and> r \<le> 90 then r + 32 else r) else caseTable r)"

text \<open>
  \<open>strings.ToLower\<close>: a string of ASCII bytes only is lower-cased byte by byte; any other
  string is mapped rune by rune with \<open>unicode.ToLower\<close>.
\<close>

definition ToLower :: "(nat \<Rightarrow> nat) \<Rightarrow> string \<Rightarrow> string" where
  "ToLower caseTable s =
     (if list_all (\<lambda>c. (of_char c :: nat) < 128) s then
        map (\<lambda>c. let n = (of_char c :: nat) in if 65 \<le> n \<and> n \<le> 90 then char_of (n + 32) else c) s
      else Map_string (unicode_ToLower caseTable) s)"

fun Contains :: "string \<Rightarrow> string \<Rightarrow> bool" where
  "Contains [] substr = (substr = [])"
| "Contains (c # cs) substr = (take (length substr) (c # cs) = substr \<or> Contains cs substr)"

text \<open>
  The two regular expressions are alternations of three-letter words; \<open>MatchString\<close> asks
  whether one of the words occurs in the string.
\<close>

definition MatchString :: "string list \<Rightarrow> string \<Rightarrow> bool" where
  "MatchString patterns s = (\<exists>p \<in> set patterns. Contains s p)"

definition sequentialPattern :: "string list" where
  "sequentialPattern =
     [''abc'', ''bcd'', ''cde'', ''def'', ''efg'', ''fgh'', ''ghi'', ''hij'', ''ijk'', ''jkl'',
      ''klm'', ''lmn'', ''mno'', ''nop'', ''opq'', ''pqr'', ''qrs'', ''rst'', ''stu'', ''tuv'',
      ''uvw'', ''vwx'', ''wxy'', ''xyz'', ''012'', ''123'', ''234'', ''345'', ''456'', ''567'',
      ''678'', ''789'']"

definition keyboardPattern :: "string list" where
  "keyboardPattern =
     [''qwe'', ''wer'', ''ert'', ''rty'', ''tyu'', ''yui'', ''uio'', ''iop'', ''asd'', ''sdf'',
      ''dfg'', ''fgh'', ''ghj'', ''hjk'', ''jkl'', ''zxc'', ''xcv'', ''cvb'', ''vbn'', ''bnm'']"

definition commonPasswords :: "string list" where
  "commonPasswords =
     [''password'', ''123456'', ''123456789'', ''qwerty'', ''abc123'', ''password123'', ''admin'',
      ''letmein'', ''welcome'', ''monkey'', ''dragon'', ''master'', ''shadow'', ''superman'',
      ''michael'', ''football'', ''baseball'', ''liverpool'']"

subsection \<open>Strength checker\<close>

datatype strength_level = StrengthWeak | StrengthMedium | StrengthStrong | StrengthVeryStrong

text \<open>
  Of \<open>PasswordStrength\<close> the score and the level are modelled; the feedback messages and
  the floating-point entropy with its crack-time label are left out.
\<close>

record PasswordStrength =
  Score :: int
  Level :: strength_level

text \<open>\<open>countUniqueChars\<close>: the number of distinct runes.\<close>

definition countUniqueChars :: "string \<Rightarrow> int" where
  "countUniqueChars password = int (length (remdups (runes password)))"

definition hasSequentialPattern :: "(nat \<Rightarrow> nat) \<Rightarrow> string \<Rightarrow> bool" where
  "hasSequentialPattern caseTable password =
     MatchString sequentialPattern (ToLower caseTable password)"

text \<open>The loop of \<open>hasRepeatedChars\<close>, with the previous byte and the running count.\<close>

fun repeatedLoop :: "char \<Rightarrow> nat \<Rightarrow> string \<Rightarrow> bool" where
  "repeatedLoop prev count [] = False"
| "repeatedLoop prev count (c # cs) =
     (if c = prev then (if count + 1 \<ge> 3 then True else repeatedLoop c (count + 1) cs)
      else repeatedLoop c 1 cs)"

definition hasRepeatedChars :: "string \<Rightarrow> bool" where
  "hasRepeatedChars password =
     (if length password < 3 then False
      else case password of [] \<Rightarrow> False | c # cs \<Rightarrow> repeatedLoop c 1 cs)"

definition hasRepeatedPattern :: "string \<Rightarrow> bool" where
  "hasRepeatedPattern password = hasRepeatedChars password"

definition hasKeyboardPattern :: "(nat \<Rightarrow> nat) \<Rightarrow> string \<Rightarrow> bool" where
  "hasKeyboardPattern caseTable password =
     MatchString keyboardPattern (ToLower caseTable password)"

definition isCommonPassword :: "(nat \<Rightarrow> nat) \<Rightarrow> string \<Rightarrow> bool" where
  "isCommonPassword caseTable password = (ToLower caseTable password \<in> set commonPasswords)"

definition getStrengthLevel :: "int \<Rightarrow> strength_level" where
  "getStrengthLevel score =
     (if score < 30 then StrengthWeak
      else if score < 60 then StrengthMedium
      else if score < 80 then StrengthStrong
      else StrengthVeryStrong)"

text \<open>The number of character classes a password uses (\<open>charTypeCount\<close> in the source).\<close>

definition charTypeCount :: "string \<Rightarrow> int" where
  "charTypeCount password =
     (if ContainsAny password LowerChars then 1 else 0)
     + (if ContainsAny password UpperChars then 1 else 0)
     + (if ContainsAny password NumberChars then 1 else 0)
     + (if ContainsAny password SymbolChars then 1 else 0)"

definition CheckStrength :: "(nat \<Rightarrow> nat) \<Rightarrow> bool \<Rightarrow> string \<Rightarrow> PasswordStrength" where
  "CheckStrength caseTable enableDictionaryCheck password =
     (if password = [] then \<lparr> Score = 0, Level = StrengthWeak \<rparr>
      else
        let len = int (length password);
            score1 = (if len < 8 then 0
                      else if len \<ge> 8 \<and> len < 12 then 20
                      else if len \<ge> 12 \<and> len < 16 then 30
                      else 40);
            score2 = score1 + charTypeCount password * 10;
            uniqueChars = countUniqueChars password;
            score3 = (if uniqueChars < len div 2 then score2 else score2 + 10);
            score4 = (if hasSequentialPattern caseTable password then score3 - 10 else score3);
            score5 = (if hasRepeatedPattern password then score4 - 10 else score4);
            score6 = (if hasKeyboardPattern caseTable password then score5 - 10 else score5);
            score7 = (if enableDictionaryCheck \<and> isCommonPassword caseTable password
                      then score6 - 20 else score6);
            score8 = (if score7 < 0 then 0 else score7);
            score = (if score8 > 100 then 100 else score8)
        in \<lparr> Score = score, Level = getStrengthLevel score \<rparr>)"

text \<open>
  The parts of the score: the points for the length, whether the uniqueness bonus is
  given, the sum of the deductions, and the deductions less the bonus.
\<close>

definition lengthPoints :: "string \<Rightarrow> int" where
  "lengthPoints password =
     (if int (length password) < 8 then 0
      else if int (length password) \<ge> 8 \<and> int (length password) < 12 then 20
      else if int (length password) \<ge> 12 \<and> int (length password) < 16 then 30
      else 40)"

definition uniquenessBonus :: "string \<Rightarrow> bool" where
  "uniquenessBonus password = (\<not> countUniqueChars password < int (length password) div 2)"

definition deductions :: "(nat \<Rightarrow> nat) \<Rightarrow> bool \<Rightarrow> string \<Rightarrow> int" where
  "deductions caseTable enableDictionaryCheck password =
     (if hasSequentialPattern caseTable password then 10 else 0)
     + (if hasRepeatedPattern password then 10 else 0)
     + (if hasKeyboardPattern caseTable password then 10 else 0)
     + (if enableDictionaryCheck \<and> isCommonPassword caseTable password then 20 else 0)"

definition netDeductions :: "(nat \<Rightarrow> nat) \<Rightarrow> bool \<Rightarrow> string \<Rightarrow> int" where
  "netDeductions caseTable enableDictionaryCheck password =
     deductions caseTable enableDictionaryCheck password
     - (if uniquenessBonus password then 10 else 0)"

subsection \<open>Generator\<close>

record GenerateOptions =
  Length :: int
  IncludeLower :: bool
  IncludeUpper :: bool
  IncludeNumbers :: bool
  IncludeSymbols :: bool
  ExcludeAmbiguous :: bool
  CustomCharset :: string

datatype generate_error = ErrInvalidOptions | ErrRandomRead

definition validateOptions :: "GenerateOptions \<Rightarrow> generate_error option" where
  "validateOptions options =
     (if Length options \<le> 0 then Some ErrInvalidOptions
      else if Length options > 256 then Some ErrInvalidOptions
      else if \<not> IncludeLower options \<and> \<not> IncludeUpper options
              \<and> \<not> IncludeNumbers options \<and> \<not> IncludeSymbols options
              \<and> CustomCharset options = [] then Some ErrInvalidOptions
      else None)"

definition removeAmbiguousChars :: "string \<Rightarrow> string" where
  "removeAmbiguousChars charset = filter (\<lambda>c. c \<notin> set AmbiguousChars) charset"

definition buildCharset :: "GenerateOptions \<Rightarrow> string" where
  "buildCharset options =
     (if CustomCharset options \<noteq> [] then
        (if ExcludeAmbiguous options then removeAmbiguousChars (CustomCharset options)
         else CustomCharset options)
      else
        let charset = (if IncludeLower options then LowerChars else [])
                      @ (if IncludeUpper options then UpperChars else [])
                      @ (if IncludeNumbers options then NumberChars else [])
                      @ (if IncludeSymbols options then SymbolChars else [])
        in if ExcludeAmbiguous options then removeAmbiguousChars charset else charset)"

text \<open>
  The random source: the \<open>i\<close>-th call of \<open>rand.Read\<close> on a four-byte buffer yields
  \<open>rand i\<close>, the four bytes as one big-endian word, or fails (\<open>None\<close>). The position in
  the source is threaded through the generator. Go's \<open>int\<close> has 64 bits, so the word is
  never negative as an \<open>int\<close>; the test of the source is kept.
\<close>

type_synonym random_source = "nat \<Rightarrow> 32 word option"

definition secureRandomInt :: "int \<Rightarrow> random_source \<Rightarrow> nat \<Rightarrow> generate_error + (int \<times> nat)" where
  "secureRandomInt maxInt rand pos =
     (if maxInt \<le> 0 then Inl ErrInvalidOptions
      else case rand pos of
        None \<Rightarrow> Inl ErrRandomRead
      | Some w \<Rightarrow>
          let randomInt = uint w;
              randomInt' = (if randomInt < 0 then - randomInt else randomInt)
          in Inr (randomInt' mod maxInt, pos + 1))"

definition meetsRequirements :: "string \<Rightarrow> GenerateOptions \<Rightarrow> bool" where
  "meetsRequirements password options =
     (if CustomCharset options \<noteq> [] then True
      else if IncludeLower options \<and> \<not> ContainsAny password LowerChars then False
      else if IncludeUpper options \<and> \<not> ContainsAny password UpperChars then False
      else if IncludeNumbers options \<and> \<not> ContainsAny password NumberChars then False
      else if IncludeSymbols options \<and> \<not> ContainsAny password SymbolChars then False
      else True)"

text \<open>
  One of the four blocks of \<open>ensureRequirements\<close>: when the class is wanted and the
  password handed in has none of its characters, overwrite the next position; the error
  of \<open>secureRandomInt\<close> is dropped there and the index is then zero. The state is the
  result so far, the position, and the position in the random source.
\<close>

definition ensureClass ::
  "bool \<Rightarrow> string \<Rightarrow> string \<Rightarrow> random_source \<Rightarrow> string \<times> nat \<times> nat \<Rightarrow> string \<times> nat \<times> nat" where
  "ensureClass wanted chars password rand st =
     (case st of (result, position, pos) \<Rightarrow>
        if wanted \<and> \<not> ContainsAny password chars then
          (if position < length result then
             (case secureRandomInt (int (length chars)) rand pos of
                Inl err \<Rightarrow> (result[position := chars ! 0], position + 1, pos)
              | Inr (randomIndex, pos') \<Rightarrow>
                  (result[position := chars ! nat randomIndex], position + 1, pos'))
           else st)
        else st)"

definition ensureRequirements ::
  "string \<Rightarrow> GenerateOptions \<Rightarrow> random_source \<Rightarrow> nat \<Rightarrow> string \<times> nat" where
  "ensureRequirements password options rand pos =
     (if CustomCharset options \<noteq> [] then (password, pos)
      else
        case ensureClass (IncludeSymbols options) SymbolChars password rand
               (ensureClass (IncludeNumbers options) NumberChars password rand
                 (ensureClass (IncludeUpper options) UpperChars password rand
                   (ensureClass (IncludeLower options) LowerChars password rand
                     (password, 0, pos)))) of
          (result, position, pos') \<Rightarrow> (result, pos'))"

text \<open>The loop that draws the \<open>Length\<close> characters.\<close>

fun drawChars :: "nat \<Rightarrow> string \<Rightarrow> random_source \<Rightarrow> nat \<Rightarrow> generate_error + (string \<times> nat)" where
  "drawChars 0 charset rand pos = Inr ([], pos)"
| "drawChars (Suc n) charset rand pos =
     (case secureRandomInt (int (length charset)) rand pos of
        Inl err \<Rightarrow> Inl err
      | Inr (randomIndex, pos') \<Rightarrow>
          (case drawChars n charset rand pos' of
             Inl err \<Rightarrow> Inl err
           | Inr (rest, pos'') \<Rightarrow> Inr (charset ! nat randomIndex # rest, pos'')))"

text \<open>
  The retry loop of \<open>GeneratePassword\<close>: up to \<open>attempts\<close> calls of \<open>generate\<close> (the
  generator itself), stopping at the first error or the first result that meets the
  requirements. \<open>Inr (None, pos)\<close> says that every attempt returned and none met them.
\<close>

fun retryLoop ::
  "nat \<Rightarrow> (nat \<Rightarrow> (generate_error + (string \<times> nat)) option) \<Rightarrow> GenerateOptions \<Rightarrow> nat
     \<Rightarrow> (generate_error + (string option \<times> nat)) option" where
  "retryLoop 0 generate options pos = Some (Inr (None, pos))"
| "retryLoop (Suc attempts) generate options pos =
     (case generate pos of
        None \<Rightarrow> None
      | Some (Inl err) \<Rightarrow> Some (Inl err)
      | Some (Inr (result, pos')) \<Rightarrow>
          if meetsRequirements result options then Some (Inr (Some result, pos'))
          else retryLoop attempts generate options pos')"

text \<open>
  \<open>GeneratePassword\<close> calls itself inside its retry loop, and a call that never meets the
  requirements never returns. The first argument bounds the depth of these calls; the
  value \<open>None\<close> says that the call did not return within that depth.
\<close>

fun GeneratePassword ::
  "nat \<Rightarrow> GenerateOptions \<Rightarrow> random_source \<Rightarrow> nat \<Rightarrow> (generate_error + (string \<times> nat)) option" where
  "GeneratePassword 0 options rand pos = None"
| "GeneratePassword (Suc depth) options rand pos =
     (case validateOptions options of
        Some err \<Rightarrow> Some (Inl err)
      | None \<Rightarrow>
          let charset = buildCharset options in
          if charset = [] then Some (Inl ErrInvalidOptions)
          else case drawChars (nat (Length options)) charset rand pos of
            Inl err \<Rightarrow> Some (Inl err)
          | Inr (result, pos1) \<Rightarrow>
              if \<not> meetsRequirements result options then
                (case retryLoop 10 (\<lambda>p. GeneratePassword depth options rand p) options pos1 of
                   None \<Rightarrow> None
                 | Some (Inl err) \<Rightarrow> Some (Inl err)
                 | Some (Inr (Some retried, pos2)) \<Rightarrow> Some (Inr (retried, pos2))
                 | Some (Inr (None, pos2)) \<Rightarrow> Some (Inr (ensureRequirements result options rand pos2)))
              else Some (Inr (result, pos1)))"

subsection \<open>History storage\<close>

record PasswordHistory =
  HistoryUserID :: uint
  PasswordHash :: string
  CreatedAt :: time

type_synonym MemoryHistoryStorage = "uint \<rightharpoonup> PasswordHistory list"

text \<open>
  \<open>PanicSliceBounds\<close> is the run-time panic of the slice expression
  \<open>histories[:keepCount]\<close> when \<open>keepCount\<close> is negative; the storage the
  panicking call leaves behind is not modelled.
\<close>

datatype history_error = ErrInvalidUserID | ErrInvalidHash | PanicSliceBounds

definition Add :: "time \<Rightarrow> uint \<Rightarrow> string \<Rightarrow> MemoryHistoryStorage \<Rightarrow> history_error + MemoryHistoryStorage" where
  "Add now userID hash s =
     (if userID = 0 then Inl ErrInvalidUserID
      else if hash = [] then Inl ErrInvalidHash
      else
        let history = \<lparr> HistoryUserID = userID, PasswordHash = hash, CreatedAt = now \<rparr>
        in Inr (s(userID \<mapsto> (case s userID of None \<Rightarrow> [] | Some hs \<Rightarrow> hs) @ [history])))"

text \<open>The in-place reversal: \<open>for i, j := 0, len-1; i < j; i, j = i+1, j-1\<close>.\<close>

function reverseLoop :: "nat \<Rightarrow> nat \<Rightarrow> 'a list \<Rightarrow> 'a list" where
  "reverseLoop i j xs =
     (if i < j then reverseLoop (i + 1) (j - 1) (xs[i := xs ! j, j := xs ! i]) else xs)"
  by pat_completeness auto
termination
  by (relation "measure (\<lambda>(i, j, xs). j - i)") auto

declare reverseLoop.simps [simp del]

definition Cleanup :: "uint \<Rightarrow> int \<Rightarrow> MemoryHistoryStorage \<Rightarrow> history_error + MemoryHistoryStorage" where
  "Cleanup userID keepCount s =
     (if userID = 0 then Inl ErrInvalidUserID
      else case s userID of
        None \<Rightarrow> Inr s
      | Some histories \<Rightarrow>
          if int (length histories) \<le> keepCount then Inr s
          else
            let reversed = reverseLoop 0 (length histories - 1) histories
            in if keepCount < 0 then Inl PanicSliceBounds
               else Inr (s(userID \<mapsto> take (nat keepCount) reversed)))"

text \<open>A sequence of calls on the storage; it stops at the first call that fails.\<close>

datatype history_call = CallAdd time uint string | CallCleanup uint int

fun history_calls :: "history_call list \<Rightarrow> MemoryHistoryStorage \<Rightarrow> history_error + MemoryHistoryStorage" where
  "history_calls [] s = Inr s"
| "history_calls (CallAdd now userID hash # rest) s =
     (case Add now userID hash s of Inl err \<Rightarrow> Inl err | Inr s' \<Rightarrow> history_calls rest s')"
| "history_calls (CallCleanup userID keepCount # rest) s =
     (case Cleanup userID keepCount s of Inl err \<Rightarrow> Inl err | Inr s' \<Rightarrow> history_calls rest s')"

subsection \<open>Hashing\<close>

text \<open>
  \<open>PasswordHasher.Hash\<close> calls \<open>bcrypt.GenerateFromPassword\<close>, which draws its own salt
  and can fail; the call is the parameter \<open>generateFromPassword\<close>, from the password and
  the cost to an error message or the hash.
\<close>

datatype hash_error = ErrPasswordEmpty | ErrHashingFailed string

record PasswordHasher =
  cost :: int

definition Hash ::
  "(string \<Rightarrow> int \<Rightarrow> string + string) \<Rightarrow> PasswordHasher \<Rightarrow> string \<Rightarrow> hash_error + string" where
  "Hash generateFromPassword h password =
     (if password = [] then Inl ErrPasswordEmpty
      else case generateFromPassword password (cost h) of
        Inl err \<Rightarrow> Inl (ErrHashingFailed err)
      | Inr hash \<Rightarrow> Inr hash)"

text \<open>Of \<open>passwordManager\<close> only the hasher matters here.\<close>

record passwordManager =
  hasher :: PasswordHasher

definition passwordManager_HashPassword ::
  "(string \<Rightarrow> int \<Rightarrow> string + string) \<Rightarrow> passwordManager \<Rightarrow> string \<Rightarrow> hash_error + string" where
  "passwordManager_HashPassword generateFromPassword pm password =
     Hash generateFromPassword (hasher pm) password"

text \<open>
  \<open>authService.HashPassword\<close> derives a key with \<open>argon2.IDKey\<close>, a total function of the
  password, the salt and the cost parameters, and returns the base64 of the salt, a
  dollar sign and the base64 of the key. The key and the encoding are kept symbolic.
  \<open>saltRead\<close> is the outcome of \<open>rand.Read\<close> on the salt buffer: an error message or the
  random bytes.
\<close>

record PasswordConfig =
  Time :: "32 word"
  Memory :: "32 word"
  Threads :: "8 word"
  KeyLen :: "32 word"
  SaltLen :: "32 word"

definition DefaultPasswordConfig :: PasswordConfig where
  "DefaultPasswordConfig =
     \<lparr> Time = 1, Memory = 64 * 1024, Threads = 4, KeyLen = 32, SaltLen = 16 \<rparr>"

datatype derived_key = IDKey string "8 word list" "32 word" "32 word" "8 word" "32 word"

datatype encoded_password = Encoded "8 word list" derived_key

definition authService_HashPassword ::
  "PasswordConfig \<Rightarrow> string + 8 word list \<Rightarrow> string \<Rightarrow> string + encoded_password" where
  "authService_HashPassword passwordConfig saltRead password =
     (case saltRead of
        Inl err \<Rightarrow> Inl err
      | Inr salt \<Rightarrow>
          let hash = IDKey password salt (Time passwordConfig) (Memory passwordConfig)
                       (Threads passwordConfig) (KeyLen passwordConfig)
          in Inr (Encoded salt hash))"

section \<open>Properties of the token service\<close>

subsection \<open>Frame and success lemmas\<close>

lemma Truncate_le: "0 < d \<Longrightarrow> Truncate t d \<le> t"
  by (simp add: Truncate_def)

lemma NewNumericDate_le: "NewNumericDate t \<le> t"
  by (simp add: NewNumericDate_def Truncate_def TimePrecision_def)

lemma NewNumericDate_after: "TimePrecision \<le> ttl \<Longrightarrow> now < NewNumericDate (now + ttl)"
proof -
  assume a: "TimePrecision \<le> ttl"
  have "(now + ttl) mod TimePrecision < TimePrecision"
    by (simp add: TimePrecision_def)
  then show ?thesis using a
    by (simp add: NewNumericDate_def Truncate_def TimePrecision_def)
qed

lemma Generate_Inr:
  assumes "GenerateTokenWithExpiration now rnd u ttl s = Inr (t, s')"
  shows "revokedTokens s' = revokedTokens s" "config s' = config s" "secretKey s' = secretKey s"
    "refreshCounts s' = refreshCounts s" "u \<noteq> 0" "0 < ttl"
    "t = issuedToken s now rnd u ttl"
  using assms
  by (auto simp: GenerateTokenWithExpiration_def Let_def split: if_splits)

lemma Generate_total:
  "u \<noteq> 0 \<Longrightarrow> 0 < ttl \<Longrightarrow>
     \<exists>s'. GenerateTokenWithExpiration now rnd u ttl s = Inr (issuedToken s now rnd u ttl, s')"
  by (simp add: GenerateTokenWithExpiration_def Let_def)

lemma issuedToken_not_empty: "issuedToken s now rnd u ttl \<noteq> EmptyToken"
  by (simp add: issuedToken_def SignedString_def EmptyToken_def)


lemma ParseToken_frame:
  "secretKey s' = secretKey s \<Longrightarrow> ParseToken now t s' = ParseToken now t s"
  by (simp add: ParseToken_def)

lemma ParseToken_issued:
  assumes "NewNumericDate now \<le> now'" "now' < NewNumericDate (now + ttl)"
  shows "ParseToken now' (issuedToken s now rnd u ttl) s = Inr (newClaims (config s) now rnd u ttl)"
  using assms
  by (simp add: ParseToken_def issuedToken_def SignedString_def EmptyToken_def ParseWithClaims_def
      ValidateClaims_def newClaims_def)

lemma ParseToken_Inr_not_empty: "ParseToken now t s = Inr c \<Longrightarrow> t \<noteq> EmptyToken"
  by (auto simp: ParseToken_def split: if_splits)

lemma ParseToken_Inr_unverified: "ParseToken now t s = Inr c \<Longrightarrow> parseTokenUnsafe t = Inr c"
  by (auto simp: ParseToken_def parseTokenUnsafe_def ParseUnverified_def ParseWithClaims_def
      split: if_splits token_string.splits sum.splits option.splits)

lemma Revoke_Inr:
  assumes "RevokeToken now t s = Inr s'"
  shows "map_of (revokedTokens s') = (map_of (revokedTokens s))(t \<mapsto> now)"
    "config s' = config s" "secretKey s' = secretKey s"
    "refreshCounts s' = (refreshCounts s)(t := None)" "t \<noteq> EmptyToken"
  using assms
  by (auto simp: RevokeToken_def Let_def update_conv' split: if_splits option.splits)

lemma Revoke_total: "t \<noteq> EmptyToken \<Longrightarrow> \<exists>s'. RevokeToken now t s = Inr s'"
  by (simp add: RevokeToken_def Let_def)

lemma fold_revokeIndexed:
  "map_of (revokedTokens (fold (revokeIndexed now) ts s)) t =
     (if t \<in> set ts then Some now else map_of (revokedTokens s) t)"
  by (induction ts arbitrary: s) (auto simp: revokeIndexed_def update_conv')

lemma map_of_fold_delete:
  "map_of (fold AList.delete ks al) k = (if k \<in> set ks then None else map_of al k)"
  by (induction ks arbitrary: al) (auto simp: delete_conv')

lemma Cleanup_lookup:
  "map_of (revokedTokens (CleanupExpiredTokens now s)) t =
     (if cleanupCandidate now t then None else map_of (revokedTokens s) t)"
  by (auto simp: CleanupExpiredTokens_def Let_def map_of_fold_delete map_of_eq_None_iff image_iff)

lemma Refresh_Inr:
  assumes "RefreshToken now rnd t s = Inr (t', s')"
  shows "\<exists>c s1. ParseToken now t s = Inr c
          \<and> GenerateToken now rnd (UserID c) s = Inr (t', s1)
          \<and> RevokeToken now t (s1\<lparr> refreshCounts := (refreshCounts s1)
                (t' \<mapsto> refreshCountOf s t + 1) \<rparr>) = Inr s'
          \<and> AllowRefresh (config s)
          \<and> refreshCountOf s t < MaxRefreshCount (config s)"
  using assms
  by (auto simp: RefreshToken_def Let_def split: if_splits sum.splits)

lemma Refresh_succeeds:
  assumes "AllowRefresh (config s)"
    and "ParseToken now t s = Inr c"
    and "refreshCountOf s t < MaxRefreshCount (config s)"
    and "refreshWindowOpen (config s) now c"
    and "UserID c \<noteq> 0" and "0 < DefaultExpiration (config s)"
  shows "\<exists>s'. RefreshToken now rnd t s
                 = Inr (issuedToken s now rnd (UserID c) (DefaultExpiration (config s)), s')
          \<and> config s' = config s \<and> secretKey s' = secretKey s
          \<and> map_of (revokedTokens s') = (map_of (revokedTokens s))(t \<mapsto> now)
          \<and> refreshCounts s' =
              ((refreshCounts s)(issuedToken s now rnd (UserID c) (DefaultExpiration (config s))
                  \<mapsto> refreshCountOf s t + 1))(t := None)"
proof -
  let ?t' = "issuedToken s now rnd (UserID c) (DefaultExpiration (config s))"
  from assms(5,6) obtain s1 where
    g: "GenerateToken now rnd (UserID c) s = Inr (?t', s1)"
    unfolding GenerateToken_def using Generate_total by blast
  note f = Generate_Inr[OF g[unfolded GenerateToken_def]]
  let ?s2 = "s1\<lparr> refreshCounts := (refreshCounts s1)(?t' \<mapsto> refreshCountOf s t + 1) \<rparr>"
  have ne: "t \<noteq> EmptyToken" using assms(2) by (rule ParseToken_Inr_not_empty)
  then obtain s3 where r: "RevokeToken now t ?s2 = Inr s3"
    using Revoke_total by blast
  note h = Revoke_Inr[OF r]
  have early: "\<not> (case ExpiresAt c of None \<Rightarrow> False
                     | Some e \<Rightarrow> now < e - RefreshExpiration (config s))"
    using assms(4) by (auto simp: refreshWindowOpen_def split: option.splits)
  have "RefreshToken now rnd t s = Inr (?t', s3)"
    using assms(1,2,3) ne early g r by (simp add: RefreshToken_def Let_def)
  moreover have "config s3 = config s" "secretKey s3 = secretKey s"
    using h f by simp_all
  moreover have "map_of (revokedTokens s3) = (map_of (revokedTokens s))(t \<mapsto> now)"
    using h(1) f(1) by simp
  moreover have "refreshCounts s3 = ((refreshCounts s)(?t' \<mapsto> refreshCountOf s t + 1))(t := None)"
    using h(4) f(4) by simp
  ultimately show ?thesis by blast
qed

lemma ValidateToken_issued:
  assumes "secretKey s' = secretKey s"
  shows "ValidateToken now' (issuedToken s now rnd u ttl) s' = Inr u \<longleftrightarrow>
           \<not> IsTokenRevoked (issuedToken s now rnd u ttl) s'
           \<and> NewNumericDate now \<le> now' \<and> now' < NewNumericDate (now + ttl)"
  using assms
  by (auto simp: ValidateToken_def ParseToken_def issuedToken_def SignedString_def EmptyToken_def
      ParseWithClaims_def ValidateClaims_def newClaims_def)

lemma Refresh_Inr_issued:
  assumes "RefreshToken now rnd t s = Inr (t', s')"
  shows "\<exists>c. ParseToken now t s = Inr c
          \<and> t' = issuedToken s now rnd (UserID c) (DefaultExpiration (config s))
          \<and> secretKey s' = secretKey s
          \<and> map_of (revokedTokens s') = (map_of (revokedTokens s))(t \<mapsto> now)
          \<and> UserID c \<noteq> 0 \<and> 0 < DefaultExpiration (config s)"
proof -
  from Refresh_Inr[OF assms] obtain c s1 where
    p: "ParseToken now t s = Inr c" and
    g: "GenerateToken now rnd (UserID c) s = Inr (t', s1)" and
    r: "RevokeToken now t
          (s1\<lparr> refreshCounts := (refreshCounts s1)(t' \<mapsto> refreshCountOf s t + 1) \<rparr>) = Inr s'"
    by blast
  note gf = Generate_Inr[OF g[unfolded GenerateToken_def]]
  note rf = Revoke_Inr[OF r]
  have "secretKey s' = secretKey s" using rf(3) gf(3) by simp
  moreover have "map_of (revokedTokens s') = (map_of (revokedTokens s))(t \<mapsto> now)"
    using rf(1) gf(1) by simp
  ultimately show ?thesis using p gf(5,6,7) by blast
qed

lemma revoked_step:
  assumes "IsTokenRevoked t s"
    and "opn = OpCleanup \<Longrightarrow> \<not> cleanupCandidate now t"
  shows "IsTokenRevoked t (apply_operation now opn s)"
proof (cases opn)
  case (OpGenerate rnd u ttl)
  then show ?thesis using assms(1)
    by (auto simp: IsTokenRevoked_def split: sum.splits dest: Generate_Inr(1))
next
  case (OpRevoke x)
  then show ?thesis using assms(1)
    by (auto simp: IsTokenRevoked_def split: sum.splits dest!: Revoke_Inr(1))
next
  case (OpRefresh rnd x)
  show ?thesis
  proof (cases "RefreshToken now rnd x s")
    case (Inl e)
    then show ?thesis using assms(1) OpRefresh by simp
  next
    case (Inr p)
    obtain t' s' where p: "p = (t', s')" by (cases p)
    from Refresh_Inr[OF Inr[unfolded p]] obtain c s1 where
      pc: "ParseToken now x s = Inr c" and
      g: "GenerateToken now rnd (UserID c) s = Inr (t', s1)" and
      r: "RevokeToken now x (s1\<lparr> refreshCounts := (refreshCounts s1)
                (t' \<mapsto> refreshCountOf s x + 1) \<rparr>) = Inr s'"
      by blast
    from g have "revokedTokens s1 = revokedTokens s"
      unfolding GenerateToken_def by (rule Generate_Inr(1))
    with Revoke_Inr(1)[OF r] assms(1) have "IsTokenRevoked t s'"
      by (simp add: IsTokenRevoked_def)
    then show ?thesis using OpRefresh Inr p by simp
  qed
next
  case (OpRevokeAll u)
  then show ?thesis using assms(1)
    by (auto simp: IsTokenRevoked_def RevokeAllUserTokens_def Let_def fold_revokeIndexed
        split: sum.splits if_splits option.splits)
next
  case OpCleanup
  then show ?thesis using assms
    by (simp add: IsTokenRevoked_def Cleanup_lookup)
qed

lemma revoked_run:
  assumes "IsTokenRevoked t s"
    and "\<forall>(now, opn) \<in> set ops. opn = OpCleanup \<longrightarrow> \<not> cleanupCandidate now t"
  shows "IsTokenRevoked t (run_operations ops s)"
  using assms
proof (induction ops arbitrary: s)
  case Nil
  then show ?case by simp
next
  case (Cons a ops)
  obtain now opn where a: "a = (now, opn)" by (cases a)
  have "IsTokenRevoked t (apply_operation now opn s)"
    using Cons.prems a by (intro revoked_step) auto
  moreover have "\<forall>(now, opn) \<in> set ops. opn = OpCleanup \<longrightarrow> \<not> cleanupCandidate now t"
    using Cons.prems(2) by auto
  ultimately show ?case using Cons.IH a by simp
qed

subsection \<open>Round trip of a token\<close>

text \<open>
  Claim C1, as the code has it. A token issued by \<open>GenerateTokenWithExpiration\<close> for the
  identity \<open>u\<close> is accepted by \<open>ValidateToken\<close>, which returns \<open>u\<close>, at every clock
  reading \<open>now'\<close> from the issue on and before the expiry the token carries. That expiry
  is the issue time plus the lifetime, truncated to a whole second by
  \<open>jwt.NewNumericDate\<close>; so with a lifetime of a second or more the token is accepted at
  the very clock reading of its issue. The token string must not be in the revocation
  map already (its random JTI is new).
\<close>

theorem token_round_trip:
  assumes "GenerateTokenWithExpiration now rnd u ttl s = Inr (t, s')"
    and "\<not> IsTokenRevoked t s"
  shows "(now \<le> now' \<and> now' < NewNumericDate (now + ttl) \<longrightarrow> ValidateToken now' t s' = Inr u)
       \<and> (TimePrecision \<le> ttl \<longrightarrow> ValidateToken now t s' = Inr u)"
proof -
  note g = Generate_Inr[OF assms(1)]
  have v: "ValidateToken x t s' = Inr u" if "now \<le> x" and "x < NewNumericDate (now + ttl)" for x
  proof -
    have nbf: "NewNumericDate now \<le> x"
      using NewNumericDate_le[of now] that(1) by simp
    have "ParseToken x t s = Inr (newClaims (config s) now rnd u ttl)"
      unfolding g(7) using nbf that(2) by (rule ParseToken_issued)
    then have p: "ParseToken x t s' = Inr (newClaims (config s) now rnd u ttl)"
      using ParseToken_frame[OF g(3), of x t] by simp
    have "\<not> IsTokenRevoked t s'"
      using assms(2) g(1) by (simp add: IsTokenRevoked_def)
    moreover have "t \<noteq> EmptyToken"
      unfolding g(7) by (rule issuedToken_not_empty)
    ultimately show ?thesis
      using p by (simp add: ValidateToken_def newClaims_def)
  qed
  show ?thesis
    using v[of now'] v[of now] NewNumericDate_after[of ttl now] by simp
qed

text \<open>
  The theorem at a concrete input: a one-hour token of identity 7, validated at the very
  clock reading of its issue and a tenth of a second later.
\<close>

theorem token_round_trip_witness:
  "\<exists>t s'. GenerateTokenWithExpiration 1500000000 (replicate 16 0) 7 Hour (NewJWTService DefaultJWTConfig)
             = Inr (t, s')
        \<and> \<not> IsTokenRevoked t (NewJWTService DefaultJWTConfig)
        \<and> TimePrecision \<le> Hour
        \<and> (1600000000 :: int) < NewNumericDate (1500000000 + Hour)
        \<and> ValidateToken 1500000000 t s' = Inr 7
        \<and> ValidateToken 1600000000 t s' = Inr 7"
proof -
  obtain t s' where
    g: "GenerateTokenWithExpiration 1500000000 (replicate 16 0) 7 Hour (NewJWTService DefaultJWTConfig)
          = Inr (t, s')"
    by (simp add: GenerateTokenWithExpiration_def Hour_def Let_def)
  have r: "\<not> IsTokenRevoked t (NewJWTService DefaultJWTConfig)"
    by (simp add: IsTokenRevoked_def NewJWTService_def)
  have p: "TimePrecision \<le> Hour"
    by (simp add: TimePrecision_def Hour_def)
  have e: "(1600000000 :: int) < NewNumericDate (1500000000 + Hour)"
    by (simp add: NewNumericDate_def Truncate_def TimePrecision_def Hour_def)
  from token_round_trip[OF g r, of 1600000000] p e
  have "ValidateToken 1500000000 t s' = Inr 7" "ValidateToken 1600000000 t s' = Inr 7"
    by simp_all
  with g r p e show ?thesis by blast
qed

text \<open>
  Claim C1 as stated fails for lifetimes under a second: a token issued at 1.5 s with a
  lifetime of 1 ms carries the expiry 1 s, and \<open>ValidateToken\<close> at the same clock reading
  answers that the token is expired.
\<close>

theorem token_round_trip_counterexample:
  "(case GenerateTokenWithExpiration 1500000000 (replicate 16 0) 7 1000000 (NewJWTService DefaultJWTConfig) of
      Inl e \<Rightarrow> False
    | Inr (t, s') \<Rightarrow> ValidateToken 1500000000 t s' = Inl (ErrParseFailed ErrTokenExpired))"
  by code_simp

subsection \<open>Revocation\<close>

text \<open>
  Claim C2, as the code has it. Let \<open>RevokeToken\<close> succeed on a token string that decodes
  to claims \<open>c\<close> (signature and validity period aside). After any run of operations in
  which \<open>CleanupExpiredTokens\<close> is only called at clock readings not after the expiry in
  \<open>c\<close> (a token without expiry allows every reading), \<open>ValidateToken\<close> fails with the
  revocation error, at every clock reading.
\<close>

theorem revocation_finality:
  assumes "RevokeToken now0 t s0 = Inr s1"
    and "parseTokenUnsafe t = Inr c"
    and "\<forall>(now, opn) \<in> set ops. opn = OpCleanup \<longrightarrow> (case ExpiresAt c of None \<Rightarrow> True | Some e \<Rightarrow> now \<le> e)"
  shows "ValidateToken now' t (run_operations ops s1) = Inl ErrTokenRevoked"
proof -
  note r = Revoke_Inr[OF assms(1)]
  have "IsTokenRevoked t s1"
    using r(1) by (simp add: IsTokenRevoked_def)
  moreover have "\<forall>(now, opn) \<in> set ops. opn = OpCleanup \<longrightarrow> \<not> cleanupCandidate now t"
    using assms(2,3) by (auto simp: cleanupCandidate_def split: option.splits)
  ultimately have "IsTokenRevoked t (run_operations ops s1)"
    by (rule revoked_run)
  then show ?thesis using r(5) by (simp add: ValidateToken_def)
qed

text \<open>
  The theorem on a run with two clean-ups and a bulk revocation before the expiry of a
  one-hour token.
\<close>

theorem revocation_finality_witness:
  "\<exists>s1. RevokeToken 5 (issuedToken (NewJWTService DefaultJWTConfig) 0 [] 7 Hour)
            (NewJWTService DefaultJWTConfig) = Inr s1
      \<and> ValidateToken 9 (issuedToken (NewJWTService DefaultJWTConfig) 0 [] 7 Hour)
            (run_operations [(6, OpCleanup), (7, OpRevokeAll 7), (8, OpCleanup)] s1)
          = Inl ErrTokenRevoked"
proof -
  let ?t = "issuedToken (NewJWTService DefaultJWTConfig) 0 [] 7 Hour"
  obtain s1 where r: "RevokeToken 5 ?t (NewJWTService DefaultJWTConfig) = Inr s1"
    using Revoke_total[OF issuedToken_not_empty] by blast
  have p: "parseTokenUnsafe ?t = Inr (newClaims DefaultJWTConfig 0 [] 7 Hour)"
    by (simp add: parseTokenUnsafe_def ParseUnverified_def issuedToken_def SignedString_def
        NewJWTService_def)
  have c: "\<forall>(now, opn) \<in> set [(6, OpCleanup), (7, OpRevokeAll 7), (8, OpCleanup)].
             opn = OpCleanup \<longrightarrow>
             (case ExpiresAt (newClaims DefaultJWTConfig 0 [] 7 Hour) of
                None \<Rightarrow> True | Some e \<Rightarrow> now \<le> e)"
    by (simp add: newClaims_def NewNumericDate_def Truncate_def TimePrecision_def Hour_def)
  from revocation_finality[OF r p c] r show ?thesis by blast
qed

text \<open>
  Claim C2 as stated, for every token string, fails on a string that does not decode:
  \<open>RevokeToken\<close> accepts it, the next \<open>CleanupExpiredTokens\<close> drops its record at once,
  and \<open>ValidateToken\<close> then reports a parse failure, not a revocation.
\<close>

theorem revocation_finality_counterexample:
  "(case RevokeToken 0 (Malformed ''invalid.token'') (NewJWTService DefaultJWTConfig) of
      Inl e \<Rightarrow> False
    | Inr s1 \<Rightarrow> ValidateToken 0 (Malformed ''invalid.token'') (run_operations [(0, OpCleanup)] s1)
                = Inl (ErrParseFailed ErrTokenMalformed))"
  by code_simp

subsection \<open>Clean-up of the revocation map\<close>

text \<open>
  Claim C5, as the code has it. After \<open>CleanupExpiredTokens\<close> a token string is revoked
  exactly when it was revoked before, it decodes, and its expiry claim is absent or not
  before the clock reading. So the record of a decodable token is dropped only once its
  own expiry has passed, and a record whose string does not decode is always dropped.
\<close>

theorem cleanup_keeps_live_revocations:
  "IsTokenRevoked t (CleanupExpiredTokens now s) \<longleftrightarrow>
     IsTokenRevoked t s \<and>
     (\<exists>c. parseTokenUnsafe t = Inr c \<and> (case ExpiresAt c of None \<Rightarrow> True | Some e \<Rightarrow> now \<le> e))"
  by (auto simp: IsTokenRevoked_def Cleanup_lookup cleanupCandidate_def
      split: sum.splits option.splits)

text \<open>
  The theorem on a revoked one-hour token: kept by a clean-up before its expiry, dropped
  by one after it.
\<close>

theorem cleanup_keeps_live_revocations_witness:
  "\<exists>s1. RevokeToken 5 (issuedToken (NewJWTService DefaultJWTConfig) 0 [] 7 Hour)
            (NewJWTService DefaultJWTConfig) = Inr s1
      \<and> IsTokenRevoked (issuedToken (NewJWTService DefaultJWTConfig) 0 [] 7 Hour)
            (CleanupExpiredTokens 6 s1)
      \<and> \<not> IsTokenRevoked (issuedToken (NewJWTService DefaultJWTConfig) 0 [] 7 Hour)
            (CleanupExpiredTokens (2 * Hour) s1)"
proof -
  let ?t = "issuedToken (NewJWTService DefaultJWTConfig) 0 [] 7 Hour"
  obtain s1 where r: "RevokeToken 5 ?t (NewJWTService DefaultJWTConfig) = Inr s1"
    using Revoke_total[OF issuedToken_not_empty] by blast
  have v: "IsTokenRevoked ?t s1"
    using Revoke_Inr(1)[OF r] by (simp add: IsTokenRevoked_def)
  have p: "parseTokenUnsafe ?t = Inr (newClaims DefaultJWTConfig 0 [] 7 Hour)"
    by (simp add: parseTokenUnsafe_def ParseUnverified_def issuedToken_def SignedString_def
        NewJWTService_def)
  have e: "ExpiresAt (newClaims DefaultJWTConfig 0 [] 7 Hour) = Some Hour"
    by (simp add: newClaims_def NewNumericDate_def Truncate_def TimePrecision_def Hour_def)
  have "IsTokenRevoked ?t (CleanupExpiredTokens 6 s1)"
    using cleanup_keeps_live_revocations[of ?t 6 s1] v p e by (simp add: Hour_def)
  moreover have "\<not> IsTokenRevoked ?t (CleanupExpiredTokens (2 * Hour) s1)"
    using cleanup_keeps_live_revocations[of ?t "2 * Hour" s1] v p e by (simp add: Hour_def)
  ultimately show ?thesis using r by blast
qed

text \<open>
  Claim C5 as stated includes strings that do not decode: the record of such a string is
  dropped by a clean-up although no expiry has passed.
\<close>

theorem cleanup_keeps_live_revocations_counterexample:
  "(case RevokeToken 0 (Malformed ''invalid.token'') (NewJWTService DefaultJWTConfig) of
      Inl e \<Rightarrow> False
    | Inr s1 \<Rightarrow> IsTokenRevoked (Malformed ''invalid.token'') s1
          \<and> \<not> IsTokenRevoked (Malformed ''invalid.token'') (CleanupExpiredTokens 0 s1))"
  by code_simp

subsection \<open>Refresh\<close>







text \<open>
  Claim C4, as the code has it. When \<open>RefreshToken\<close> succeeds on \<open>oldTok\<close> at the clock
  reading \<open>now\<close> and returns \<open>newTok\<close>, the old token is revoked. \<open>ValidateToken\<close> accepts
  the new token and returns the identity the old token carried at exactly these clock
  readings \<open>now'\<close>: from the second of the refresh on and before the expiry the new token
  carries, which is \<open>now\<close> plus the configured \<open>DefaultExpiration\<close>, truncated to a whole
  second by \<open>jwt.NewNumericDate\<close>; and only if the new token string is new, that is, not
  the old string and not in the revocation map before the call. So a new token string is
  accepted at the very clock reading of the refresh whenever \<open>DefaultExpiration\<close> is a
  second or more.
\<close>

theorem refresh_revokes_predecessor:
  assumes "RefreshToken now rnd oldTok s = Inr (newTok, s')"
  shows "IsTokenRevoked oldTok s'
       \<and> (\<exists>c. ParseToken now oldTok s = Inr c
              \<and> (ValidateToken now' newTok s' = Inr (UserID c) \<longleftrightarrow>
                   newTok \<noteq> oldTok \<and> \<not> IsTokenRevoked newTok s
                   \<and> NewNumericDate now \<le> now'
                   \<and> now' < NewNumericDate (now + DefaultExpiration (config s)))
              \<and> (newTok \<noteq> oldTok \<and> \<not> IsTokenRevoked newTok s
                   \<and> TimePrecision \<le> DefaultExpiration (config s)
                   \<longrightarrow> ValidateToken now newTok s' = Inr (UserID c)))"
proof -
  from Refresh_Inr_issued[OF assms] obtain c where
    p: "ParseToken now oldTok s = Inr c" and
    n: "newTok = issuedToken s now rnd (UserID c) (DefaultExpiration (config s))" and
    sk: "secretKey s' = secretKey s" and
    rv: "map_of (revokedTokens s') = (map_of (revokedTokens s))(oldTok \<mapsto> now)"
    by blast
  have old: "IsTokenRevoked oldTok s'"
    using rv by (simp add: IsTokenRevoked_def)
  have new: "IsTokenRevoked newTok s' \<longleftrightarrow> newTok = oldTok \<or> IsTokenRevoked newTok s"
    using rv by (simp add: IsTokenRevoked_def)
  have v: "ValidateToken x newTok s' = Inr (UserID c) \<longleftrightarrow>
             newTok \<noteq> oldTok \<and> \<not> IsTokenRevoked newTok s
             \<and> NewNumericDate now \<le> x
             \<and> x < NewNumericDate (now + DefaultExpiration (config s))" for x
    using ValidateToken_issued[OF sk, of x now rnd "UserID c" "DefaultExpiration (config s)"] new
    unfolding n[symmetric] by simp
  have "ValidateToken now newTok s' = Inr (UserID c)"
    if "newTok \<noteq> oldTok \<and> \<not> IsTokenRevoked newTok s \<and> TimePrecision \<le> DefaultExpiration (config s)"
    using that v[of now] NewNumericDate_le[of now]
      NewNumericDate_after[of "DefaultExpiration (config s)" now] by simp
  with old p v[of now'] show ?thesis by blast
qed

text \<open>
  The theorem on the first refresh of a token of identity 7 under the default
  configuration: the new token is validated at the clock reading of the refresh and four
  seconds later.
\<close>

theorem refresh_revokes_predecessor_witness:
  "\<exists>t0 s0 t1 s1.
      GenerateToken 0 [0] 7 (NewJWTService DefaultJWTConfig) = Inr (t0, s0)
    \<and> RefreshToken 1000000000 [1] t0 s0 = Inr (t1, s1)
    \<and> t1 \<noteq> t0 \<and> \<not> IsTokenRevoked t1 s0
    \<and> TimePrecision \<le> DefaultExpiration (config s0)
    \<and> NewNumericDate 1000000000 \<le> 5000000000
    \<and> (5000000000 :: int) < NewNumericDate (1000000000 + DefaultExpiration (config s0))
    \<and> IsTokenRevoked t0 s1
    \<and> ValidateToken 1000000000 t1 s1 = Inr 7
    \<and> ValidateToken 5000000000 t1 s1 = Inr 7"
proof -
  let ?S = "NewJWTService DefaultJWTConfig"
  have all: "(case GenerateToken 0 [0] 7 ?S of
                Inl e \<Rightarrow> False
              | Inr (t0, s0) \<Rightarrow>
                  (case ParseToken 1000000000 t0 s0 of Inl e \<Rightarrow> False | Inr c \<Rightarrow> UserID c = 7)
                  \<and> TimePrecision \<le> DefaultExpiration (config s0)
                  \<and> NewNumericDate 1000000000 \<le> 5000000000
                  \<and> (5000000000 :: int) < NewNumericDate (1000000000 + DefaultExpiration (config s0))
                  \<and> (case RefreshToken 1000000000 [1] t0 s0 of
                        Inl e \<Rightarrow> False
                      | Inr (t1, s1) \<Rightarrow> \<not> IsTokenRevoked t1 s0 \<and> t1 \<noteq> t0))"
    by code_simp
  then obtain t0 s0 where g: "GenerateToken 0 [0] 7 ?S = Inr (t0, s0)"
    by (auto split: sum.splits)
  from all g obtain t1 s1 where r: "RefreshToken 1000000000 [1] t0 s0 = Inr (t1, s1)"
    by (auto split: sum.splits)
  from all g r have h: "\<not> IsTokenRevoked t1 s0" "t1 \<noteq> t0"
    "TimePrecision \<le> DefaultExpiration (config s0)"
    "NewNumericDate 1000000000 \<le> 5000000000"
    "(5000000000 :: int) < NewNumericDate (1000000000 + DefaultExpiration (config s0))"
    by simp_all
  from all g obtain c0 where c0: "ParseToken 1000000000 t0 s0 = Inr c0" "UserID c0 = 7"
    by (auto split: sum.splits)
  from refresh_revokes_predecessor[OF r, of 5000000000] c0 h
  have "IsTokenRevoked t0 s1" "ValidateToken 1000000000 t1 s1 = Inr 7"
    "ValidateToken 5000000000 t1 s1 = Inr 7"
    by auto
  with g r h show ?thesis by blast
qed

text \<open>
  Claim C4 as stated fails when \<open>DefaultExpiration\<close> is under a second. With a
  \<open>DefaultExpiration\<close> of 1 ms, a one-hour token of identity 7 is refreshed at 1.5 s: the
  call succeeds and returns a new token string, whose expiry and not-before claims are
  both 1 s. \<open>ValidateToken\<close> rejects it as expired at the clock reading of the refresh and
  at 1 s, and as not yet valid just before 1 s.
\<close>

theorem refresh_revokes_predecessor_counterexample:
  "(case GenerateTokenWithExpiration 0 [0] 7 Hour
           (NewJWTService (DefaultJWTConfig\<lparr> DefaultExpiration := 1000000 \<rparr>)) of
      Inl e \<Rightarrow> False
    | Inr (t0, s0) \<Rightarrow>
        (case RefreshToken 1500000000 [1] t0 s0 of
           Inl e \<Rightarrow> False
         | Inr (t1, s1) \<Rightarrow>
             t1 \<noteq> t0 \<and> \<not> IsTokenRevoked t1 s0
             \<and> ValidateToken 1500000000 t1 s1 = Inl (ErrParseFailed ErrTokenExpired)
             \<and> ValidateToken 1000000000 t1 s1 = Inl (ErrParseFailed ErrTokenExpired)
             \<and> ValidateToken 999999999 t1 s1 = Inl (ErrParseFailed ErrTokenNotValidYet)))"
  by code_simp

text \<open>
  Claim C6, as the code has it. \<open>RefreshToken\<close> does not read the revocation map. Let
  \<open>t\<close> be revoked and still parse to claims \<open>c\<close> at the clock reading \<open>now\<close>, with refresh
  enabled, the count of \<open>t\<close> under the cap and the refresh window open. Then
  \<open>RefreshToken\<close> succeeds exactly when the identity in \<open>c\<close> is not zero and the configured
  \<open>DefaultExpiration\<close> is positive, which is what \<open>GenerateToken\<close> asks for. When it
  succeeds, \<open>ValidateToken\<close> accepts the token it returns, for the identity of \<open>t\<close>, at
  exactly the clock readings from the second of the refresh on and before the expiry the
  new token carries (\<open>now\<close> plus \<open>DefaultExpiration\<close>, truncated to a whole second), and
  only if the new token string is not in the revocation map already. So a new token
  string is accepted at the very clock reading of the refresh whenever
  \<open>DefaultExpiration\<close> is a second or more.
\<close>

theorem refresh_ignores_revocation:
  assumes "IsTokenRevoked t s"
    and "AllowRefresh (config s)"
    and "ParseToken now t s = Inr c"
    and "refreshCountOf s t < MaxRefreshCount (config s)"
    and "refreshWindowOpen (config s) now c"
  shows "((\<exists>newTok s'. RefreshToken now rnd t s = Inr (newTok, s'))
            \<longleftrightarrow> UserID c \<noteq> 0 \<and> 0 < DefaultExpiration (config s))
       \<and> (\<forall>newTok s'. RefreshToken now rnd t s = Inr (newTok, s') \<longrightarrow>
            (ValidateToken now' newTok s' = Inr (UserID c) \<longleftrightarrow>
               \<not> IsTokenRevoked newTok s
               \<and> NewNumericDate now \<le> now'
               \<and> now' < NewNumericDate (now + DefaultExpiration (config s)))
            \<and> (\<not> IsTokenRevoked newTok s \<and> TimePrecision \<le> DefaultExpiration (config s)
                 \<longrightarrow> ValidateToken now newTok s' = Inr (UserID c)))"
proof -
  have ex: "(\<exists>newTok s'. RefreshToken now rnd t s = Inr (newTok, s'))
              \<longleftrightarrow> UserID c \<noteq> 0 \<and> 0 < DefaultExpiration (config s)"
  proof
    assume "\<exists>newTok s'. RefreshToken now rnd t s = Inr (newTok, s')"
    then obtain newTok s' where r: "RefreshToken now rnd t s = Inr (newTok, s')" by blast
    from Refresh_Inr_issued[OF r] assms(3)
    show "UserID c \<noteq> 0 \<and> 0 < DefaultExpiration (config s)" by auto
  next
    assume "UserID c \<noteq> 0 \<and> 0 < DefaultExpiration (config s)"
    then show "\<exists>newTok s'. RefreshToken now rnd t s = Inr (newTok, s')"
      using Refresh_succeeds[OF assms(2,3,4,5), of rnd] by blast
  qed
  have va: "(ValidateToken now' newTok s' = Inr (UserID c) \<longleftrightarrow>
               \<not> IsTokenRevoked newTok s
               \<and> NewNumericDate now \<le> now'
               \<and> now' < NewNumericDate (now + DefaultExpiration (config s)))
            \<and> (\<not> IsTokenRevoked newTok s \<and> TimePrecision \<le> DefaultExpiration (config s)
                 \<longrightarrow> ValidateToken now newTok s' = Inr (UserID c))"
    if r: "RefreshToken now rnd t s = Inr (newTok, s')" for newTok s'
  proof -
    from Refresh_Inr_issued[OF r] assms(3) have
      n: "newTok = issuedToken s now rnd (UserID c) (DefaultExpiration (config s))" and
      sk: "secretKey s' = secretKey s" and
      rv: "map_of (revokedTokens s') = (map_of (revokedTokens s))(t \<mapsto> now)"
      by auto
    have new: "IsTokenRevoked newTok s' \<longleftrightarrow> IsTokenRevoked newTok s"
      using rv assms(1) by (auto simp: IsTokenRevoked_def)
    have v: "ValidateToken x newTok s' = Inr (UserID c) \<longleftrightarrow>
               \<not> IsTokenRevoked newTok s
               \<and> NewNumericDate now \<le> x
               \<and> x < NewNumericDate (now + DefaultExpiration (config s))" for x
      using ValidateToken_issued[OF sk, of x now rnd "UserID c" "DefaultExpiration (config s)"] new
      unfolding n[symmetric] by simp
    have "ValidateToken now newTok s' = Inr (UserID c)"
      if "\<not> IsTokenRevoked newTok s \<and> TimePrecision \<le> DefaultExpiration (config s)"
      using that v[of now] NewNumericDate_le[of now]
        NewNumericDate_after[of "DefaultExpiration (config s)" now] by simp
    with v[of now'] show ?thesis by blast
  qed
  from ex va show ?thesis by blast
qed

text \<open>
  The theorem on a token of identity 7 that was issued, revoked and then refreshed under
  the default configuration.
\<close>

theorem refresh_ignores_revocation_witness:
  "\<exists>t0 s0 s1 c t1 s2.
      GenerateToken 0 [0] 7 (NewJWTService DefaultJWTConfig) = Inr (t0, s0)
    \<and> RevokeToken 500 t0 s0 = Inr s1
    \<and> IsTokenRevoked t0 s1
    \<and> AllowRefresh (config s1)
    \<and> ParseToken 1000000000 t0 s1 = Inr c \<and> UserID c = 7
    \<and> refreshCountOf s1 t0 < MaxRefreshCount (config s1)
    \<and> refreshWindowOpen (config s1) 1000000000 c
    \<and> 0 < DefaultExpiration (config s1) \<and> TimePrecision \<le> DefaultExpiration (config s1)
    \<and> RefreshToken 1000000000 [1] t0 s1 = Inr (t1, s2)
    \<and> \<not> IsTokenRevoked t1 s1
    \<and> ValidateToken 1000000000 t1 s2 = Inr 7"
proof -
  let ?S = "NewJWTService DefaultJWTConfig"
  have all: "(case GenerateToken 0 [0] 7 ?S of
                Inl e \<Rightarrow> False
              | Inr (t0, s0) \<Rightarrow>
                  (case RevokeToken 500 t0 s0 of
                     Inl e \<Rightarrow> False
                   | Inr s1 \<Rightarrow>
                       IsTokenRevoked t0 s1 \<and> AllowRefresh (config s1)
                       \<and> refreshCountOf s1 t0 < MaxRefreshCount (config s1)
                       \<and> 0 < DefaultExpiration (config s1)
                       \<and> TimePrecision \<le> DefaultExpiration (config s1)
                       \<and> (case ParseToken 1000000000 t0 s1 of
                             Inl e \<Rightarrow> False
                           | Inr c \<Rightarrow>
                               UserID c = 7 \<and> refreshWindowOpen (config s1) 1000000000 c
                               \<and> \<not> IsTokenRevoked
                                     (issuedToken s1 1000000000 [1] 7 (DefaultExpiration (config s1))) s1)))"
    by code_simp
  then obtain t0 s0 where g: "GenerateToken 0 [0] 7 ?S = Inr (t0, s0)"
    by (auto split: sum.splits)
  from all g obtain s1 where r: "RevokeToken 500 t0 s0 = Inr s1"
    by (auto split: sum.splits)
  from all g r obtain c where c: "ParseToken 1000000000 t0 s1 = Inr c"
    by (auto split: sum.splits)
  from all g r c have h: "IsTokenRevoked t0 s1" "AllowRefresh (config s1)"
    "refreshCountOf s1 t0 < MaxRefreshCount (config s1)" "0 < DefaultExpiration (config s1)"
    "TimePrecision \<le> DefaultExpiration (config s1)"
    "UserID c = 7" "refreshWindowOpen (config s1) 1000000000 c"
    "\<not> IsTokenRevoked (issuedToken s1 1000000000 [1] 7 (DefaultExpiration (config s1))) s1"
    by simp_all
  note th = refresh_ignores_revocation[OF h(1,2) c h(3) h(7), of "[1]" 1000000000]
  from th h(4,6) obtain t1 s2 where f: "RefreshToken 1000000000 [1] t0 s1 = Inr (t1, s2)"
    by auto
  from Refresh_Inr_issued[OF f] c h(6,8) have n: "\<not> IsTokenRevoked t1 s1"
    by auto
  from th f n h(5,6) have "ValidateToken 1000000000 t1 s2 = Inr 7"
    by auto
  with g r c h f n show ?thesis by blast
qed

text \<open>
  Claim C6 as stated fails for some configurations. A one-hour token of identity 7 is
  issued and revoked; it still parses at 1.5 s, refresh is enabled, its count is under
  the cap and the window is open. With a \<open>DefaultExpiration\<close> of 1 ms, \<open>RefreshToken\<close>
  succeeds at 1.5 s, and \<open>ValidateToken\<close> rejects the token it returns as expired at that
  same clock reading. With a \<open>DefaultExpiration\<close> of 0, \<open>RefreshToken\<close> fails, because
  \<open>GenerateToken\<close> refuses a lifetime that is not positive.
\<close>

theorem refresh_ignores_revocation_counterexample:
  "(case GenerateTokenWithExpiration 0 [0] 7 Hour
           (NewJWTService (DefaultJWTConfig\<lparr> DefaultExpiration := 1000000 \<rparr>)) of
      Inl e \<Rightarrow> False
    | Inr (t0, s0) \<Rightarrow>
        (case RevokeToken 500 t0 s0 of
           Inl e \<Rightarrow> False
         | Inr s1 \<Rightarrow>
             IsTokenRevoked t0 s1 \<and> AllowRefresh (config s1)
             \<and> refreshCountOf s1 t0 < MaxRefreshCount (config s1)
             \<and> (case ParseToken 1500000000 t0 s1 of
                   Inl e \<Rightarrow> False
                 | Inr c \<Rightarrow> refreshWindowOpen (config s1) 1500000000 c)
             \<and> (case RefreshToken 1500000000 [1] t0 s1 of
                   Inl e \<Rightarrow> False
                 | Inr (t1, s2) \<Rightarrow>
                     \<not> IsTokenRevoked t1 s1
                     \<and> ValidateToken 1500000000 t1 s2 = Inl (ErrParseFailed ErrTokenExpired))))
   \<and> (case GenerateTokenWithExpiration 0 [0] 7 Hour
             (NewJWTService (DefaultJWTConfig\<lparr> DefaultExpiration := 0 \<rparr>)) of
        Inl e \<Rightarrow> False
      | Inr (t0, s0) \<Rightarrow>
          (case RevokeToken 500 t0 s0 of
             Inl e \<Rightarrow> False
           | Inr s1 \<Rightarrow>
               IsTokenRevoked t0 s1 \<and> AllowRefresh (config s1)
               \<and> refreshCountOf s1 t0 < MaxRefreshCount (config s1)
               \<and> (case ParseToken 1500000000 t0 s1 of
                     Inl e \<Rightarrow> False
                   | Inr c \<Rightarrow> refreshWindowOpen (config s1) 1500000000 c)
               \<and> (case RefreshToken 1500000000 [1] t0 s1 of
                     Inl e \<Rightarrow> e = ErrGenerateNewFailed ErrExpirationNotPositive
                   | Inr (t1, s2) \<Rightarrow> False)))"
  by code_simp

section \<open>Properties of the password component\<close>

subsection \<open>Generator\<close>

lemma lower_upper_disjoint: "c \<in> set LowerChars \<Longrightarrow> c \<notin> set UpperChars"
  by (auto simp: LowerChars_def UpperChars_def)

lemma single_char_one_class:
  "\<not> (ContainsAny [c] LowerChars \<and> ContainsAny [c] UpperChars)"
  using lower_upper_disjoint[of c] by (auto simp: ContainsAny_def)

lemma drawChars_length:
  "drawChars n charset rand pos = Inr (result, pos') \<Longrightarrow> length result = n"
  by (induction n arbitrary: pos result pos') (auto split: sum.splits)

lemma drawChars_total:
  "charset \<noteq> [] \<Longrightarrow> \<exists>result pos'. drawChars n charset (\<lambda>i. Some (r i)) pos = Inr (result, pos')"
proof (induction n arbitrary: pos)
  case 0
  then show ?case by simp
next
  case (Suc n)
  obtain i where i: "secureRandomInt (int (length charset)) (\<lambda>i. Some (r i)) pos = Inr (i, pos + 1)"
    using Suc.prems by (simp add: secureRandomInt_def Let_def)
  from Suc.IH[OF Suc.prems, of "pos + 1"] obtain result pos' where
    "drawChars n charset (\<lambda>i. Some (r i)) (pos + 1) = Inr (result, pos')" by blast
  with i show ?case by simp
qed

lemma retryLoop_diverges:
  "generate pos = None \<Longrightarrow> retryLoop (Suc attempts) generate options pos = None"
  by simp

text \<open>
  What the generator does guarantee: a password it returns has the requested length and
  meets the requirements. A call returns either its own first draw, which met them, or
  the result of a retry, which is itself a returned password; for the patch of
  \<open>ensureRequirements\<close> to run, ten retries would have to return passwords that do not
  meet the requirements, and no call returns such a password.
\<close>

lemma retryLoop_result:
  "retryLoop attempts generate options pos = Some (Inr (Some result, pos')) \<Longrightarrow>
     meetsRequirements result options \<and> (\<exists>p. generate p = Some (Inr (result, pos')))"
proof (induction attempts arbitrary: pos)
  case 0
  then show ?case by simp
next
  case (Suc attempts)
  then show ?case
    by (cases "generate pos") (auto split: sum.splits if_splits)
qed

lemma retryLoop_exhausted:
  "retryLoop (Suc attempts) generate options pos = Some (Inr (None, pos')) \<Longrightarrow>
     \<exists>p result p'. generate p = Some (Inr (result, p')) \<and> \<not> meetsRequirements result options"
  by (cases "generate pos") (fastforce split: sum.splits if_splits)+

lemma GeneratePassword_result:
  "GeneratePassword depth options rand pos = Some (Inr (password, pos')) \<Longrightarrow>
     meetsRequirements password options \<and> int (length password) = Length options"
proof (induction depth arbitrary: pos password pos')
  case 0
  then show ?case by simp
next
  case (Suc depth)
  from Suc.prems have v: "validateOptions options = None"
    by (auto split: option.splits)
  then have len: "0 < Length options"
    by (auto simp: validateOptions_def split: if_splits)
  from Suc.prems v have ne: "buildCharset options \<noteq> []"
    by (auto simp: Let_def split: if_splits)
  from Suc.prems v ne obtain result pos1 where
    d: "drawChars (nat (Length options)) (buildCharset options) rand pos = Inr (result, pos1)"
    by (cases "drawChars (nat (Length options)) (buildCharset options) rand pos")
       (auto simp: Let_def)
  have dl: "int (length result) = Length options"
    using drawChars_length[OF d] len by simp
  show ?case
  proof (cases "meetsRequirements result options")
    case True
    with Suc.prems v ne d dl show ?thesis by (simp add: Let_def)
  next
    case False
    let ?g = "\<lambda>p. GeneratePassword depth options rand p"
    from Suc.prems v ne d False have
      r: "(case retryLoop 10 ?g options pos1 of
            None \<Rightarrow> None
          | Some (Inl err) \<Rightarrow> Some (Inl err)
          | Some (Inr (Some retried, pos2)) \<Rightarrow> Some (Inr (retried, pos2))
          | Some (Inr (None, pos2)) \<Rightarrow> Some (Inr (ensureRequirements result options rand pos2)))
         = Some (Inr (password, pos'))"
      by (simp add: Let_def)
    then obtain x p2 where l: "retryLoop 10 ?g options pos1 = Some (Inr (x, p2))"
      by (auto split: option.splits sum.splits)
    show ?thesis
    proof (cases x)
      case None
      have "retryLoop (Suc 9) ?g options pos1 = Some (Inr (None, p2))"
        using l None by (simp add: numeral_eq_Suc)
      from retryLoop_exhausted[OF this] obtain p res p' where
        "GeneratePassword depth options rand p = Some (Inr (res, p'))"
        "\<not> meetsRequirements res options"
        by blast
      with Suc.IH show ?thesis by blast
    next
      case (Some retried)
      with r l have e: "retried = password" "p2 = pos'" by simp_all
      from retryLoop_result[OF l[unfolded Some e]] obtain p where
        "GeneratePassword depth options rand p = Some (Inr (password, pos'))"
        by blast
      with Suc.IH show ?thesis by blast
    qed
  qed
qed

text \<open>
  Claim C7 fails on the code. The options ask for one character, lower-case and
  upper-case letters: they pass \<open>validateOptions\<close>, and the character set is not empty. No
  password of one character has both classes, so every call fails \<open>meetsRequirements\<close>
  and enters its retry loop, whose first step is a call of \<open>GeneratePassword\<close> again: with
  a random source that never fails, the call does not return, whatever depth of calls is
  allowed. The claim promises a password of one character.
\<close>

theorem generate_password_diverges:
  "GeneratePassword depth
     \<lparr> Length = 1, IncludeLower = True, IncludeUpper = True, IncludeNumbers = False,
       IncludeSymbols = False, ExcludeAmbiguous = False, CustomCharset = [] \<rparr>
     (\<lambda>i. Some (r i)) pos = None"
proof (induction depth arbitrary: pos)
  case 0
  show ?case by simp
next
  case (Suc depth)
  let ?options = "\<lparr> Length = 1, IncludeLower = True, IncludeUpper = True, IncludeNumbers = False,
       IncludeSymbols = False, ExcludeAmbiguous = False, CustomCharset = [] \<rparr>"
  have v: "validateOptions ?options = None"
    by (simp add: validateOptions_def)
  have b: "buildCharset ?options = LowerChars @ UpperChars"
    by (simp add: buildCharset_def)
  have ne: "LowerChars @ UpperChars \<noteq> []"
    by (simp add: LowerChars_def)
  obtain result pos1 where
    d: "drawChars (Suc 0) (LowerChars @ UpperChars) (\<lambda>i. Some (r i)) pos = Inr (result, pos1)"
    using drawChars_total[OF ne] by blast
  from drawChars_length[OF d] obtain c where c: "result = [c]"
    by (cases result) auto
  have m: "\<not> meetsRequirements result ?options"
    using single_char_one_class[of c] by (auto simp: meetsRequirements_def c)
  have "retryLoop (Suc 9) (\<lambda>p. GeneratePassword depth ?options (\<lambda>i. Some (r i)) p) ?options pos1 = None"
    by (rule retryLoop_diverges) (rule Suc.IH)
  then have l: "retryLoop 10 (\<lambda>p. GeneratePassword depth ?options (\<lambda>i. Some (r i)) p) ?options pos1 = None"
    by (simp add: numeral_eq_Suc)
  show ?case
    using v b ne d m l by (simp add: Let_def)
qed

subsection \<open>History storage\<close>

text \<open>
  Claim C8 fails on the code. Three hashes are added for identity 1 and \<open>Cleanup\<close> keeps
  two; a fourth is added and \<open>Cleanup\<close> keeps two again. The first clean-up left the
  list newest first, the entry added after it went to the end, and the second clean-up
  reversed that list and cut it: what stays is the newest entry \<open>h4\<close> and the older
  \<open>h2\<close>, while \<open>h3\<close>, the second most recent, is gone.
\<close>

theorem history_cleanup_drops_recent:
  "(case history_calls
           [CallAdd 1 1 ''h1'', CallAdd 2 1 ''h2'', CallAdd 3 1 ''h3'', CallCleanup 1 2,
            CallAdd 4 1 ''h4'', CallCleanup 1 2] Map.empty of
      Inl err \<Rightarrow> False
    | Inr s \<Rightarrow>
        s 1 = Some [\<lparr> HistoryUserID = 1, PasswordHash = ''h4'', CreatedAt = 4 \<rparr>,
                    \<lparr> HistoryUserID = 1, PasswordHash = ''h2'', CreatedAt = 2 \<rparr>])"
  by code_simp

subsection \<open>Strength checker\<close>

text \<open>
  The let-chain of \<open>CheckStrength\<close>, in closed form: the points, less the deductions, cut
  off at 0 and at 100.
\<close>

lemma score_chain:
  fixes L U c :: int
  shows "(let len = L;
           score1 = S1 len;
           score2 = score1 + c * 10;
           uniqueChars = U;
           score3 = (if uniqueChars < len div 2 then score2 else score2 + 10);
           score4 = (if a then score3 - 10 else score3);
           score5 = (if b then score4 - 10 else score4);
           score6 = (if k then score5 - 10 else score5);
           score7 = (if m then score6 - 20 else score6);
           score8 = (if score7 < 0 then 0 else score7);
           score = (if score8 > 100 then 100 else score8)
       in f score)
     = f (max 0 (min 100 (S1 L + c * 10 + (if \<not> U < L div 2 then 10 else 0)
            - ((if a then 10 else 0) + (if b then 10 else 0) + (if k then 10 else 0)
               + (if m then 20 else 0)))))"
  by (cases "U < L div 2"; cases a; cases b; cases k; cases m; simp add: Let_def max_def min_def)

lemma Score_decomposed:
  assumes "password \<noteq> []"
  shows "Score (CheckStrength tbl d password) =
     max 0 (min 100
       (lengthPoints password
        + charTypeCount password * 10
        + (if uniquenessBonus password then 10 else 0)
        - deductions tbl d password))"
proof -
  have "CheckStrength tbl d password =
     (let len = int (length password);
            score1 = (if len < 8 then 0
                      else if len \<ge> 8 \<and> len < 12 then 20
                      else if len \<ge> 12 \<and> len < 16 then 30
                      else 40);
            score2 = score1 + charTypeCount password * 10;
            uniqueChars = countUniqueChars password;
            score3 = (if uniqueChars < len div 2 then score2 else score2 + 10);
            score4 = (if hasSequentialPattern tbl password then score3 - 10 else score3);
            score5 = (if hasRepeatedPattern password then score4 - 10 else score4);
            score6 = (if hasKeyboardPattern tbl password then score5 - 10 else score5);
            score7 = (if d \<and> isCommonPassword tbl password then score6 - 20 else score6);
            score8 = (if score7 < 0 then 0 else score7);
            score = (if score8 > 100 then 100 else score8)
        in \<lparr> Score = score, Level = getStrengthLevel score \<rparr>)"
    using assms by (simp only: CheckStrength_def if_False)
  also have "\<dots> = \<lparr> Score = max 0 (min 100
       ((if int (length password) < 8 then 0
         else if int (length password) \<ge> 8 \<and> int (length password) < 12 then 20
         else if int (length password) \<ge> 12 \<and> int (length password) < 16 then 30 else 40)
        + charTypeCount password * 10
        + (if \<not> countUniqueChars password < int (length password) div 2 then 10 else 0)
        - ((if hasSequentialPattern tbl password then 10 else 0)
           + (if hasRepeatedPattern password then 10 else 0)
           + (if hasKeyboardPattern tbl password then 10 else 0)
           + (if d \<and> isCommonPassword tbl password then 20 else 0)))),
       Level = getStrengthLevel (max 0 (min 100
       ((if int (length password) < 8 then 0
         else if int (length password) \<ge> 8 \<and> int (length password) < 12 then 20
         else if int (length password) \<ge> 12 \<and> int (length password) < 16 then 30 else 40)
        + charTypeCount password * 10
        + (if \<not> countUniqueChars password < int (length password) div 2 then 10 else 0)
        - ((if hasSequentialPattern tbl password then 10 else 0)
           + (if hasRepeatedPattern password then 10 else 0)
           + (if hasKeyboardPattern tbl password then 10 else 0)
           + (if d \<and> isCommonPassword tbl password then 20 else 0))))) \<rparr>"
    by (rule score_chain)
  finally show ?thesis
    by (simp only: uniquenessBonus_def deductions_def lengthPoints_def PasswordStrength.simps)
qed

lemma charTypeCount_bounds: "0 \<le> charTypeCount password \<and> charTypeCount password \<le> 4"
  by (simp add: charTypeCount_def)

lemma charTypeCount_empty: "charTypeCount [] = 0"
  by (simp add: charTypeCount_def ContainsAny_def)

lemma lengthPoints_bounds: "0 \<le> lengthPoints password \<and> lengthPoints password \<le> 40"
  by (simp add: lengthPoints_def)

lemma deductions_nonneg: "0 \<le> deductions tbl d password"
  by (simp add: deductions_def)

lemma Score_raw:
  assumes "password \<noteq> []"
  shows "Score (CheckStrength tbl d password) =
     max 0 (lengthPoints password + charTypeCount password * 10 - netDeductions tbl d password)"
proof -
  have "lengthPoints password + charTypeCount password * 10
          + (if uniquenessBonus password then 10 else 0) - deductions tbl d password \<le> 100"
    using charTypeCount_bounds[of password] lengthPoints_bounds[of password]
      deductions_nonneg[of tbl d password] by simp
  then show ?thesis
    unfolding Score_decomposed[OF assms] netDeductions_def by simp
qed

lemma Score_empty: "Score (CheckStrength tbl d []) = 0"
  by (simp add: CheckStrength_def)

lemma Score_compare:
  assumes "p = [] \<longrightarrow> q = []"
  shows "Score (CheckStrength tbl d q) \<le> Score (CheckStrength tbl d p) \<longleftrightarrow>
     Score (CheckStrength tbl d q) = 0
     \<or> netDeductions tbl d p
         \<le> netDeductions tbl d q + (lengthPoints p - lengthPoints q)
            + (charTypeCount p - charTypeCount q) * 10"
proof (cases "q = []")
  case True
  show ?thesis
  proof (cases "p = []")
    case p: True
    show ?thesis unfolding True p by (simp add: Score_empty)
  next
    case p: False
    show ?thesis unfolding True Score_empty Score_raw[OF p] by simp
  qed
next
  case False
  then have p: "p \<noteq> []" using assms by auto
  show ?thesis
    unfolding Score_raw[OF False] Score_raw[OF p] by (auto simp: max_def algebra_simps)
qed

text \<open>
  Claim C9, as the code has it. The score of a non-empty password is the points for its
  length, plus 10 for each character class, less its net deductions (the penalties for a
  sequence, a repetition, a keyboard run and a dictionary word, less the 10 points of the
  uniqueness bonus), and 0 when that is negative. Hence, whatever the case table and the
  dictionary setting:
  \<^item> of two passwords of equal length, one with four classes and one with one class, the
    first scores at least as much as the second exactly when the second scores 0 or the
    net deductions of the first are at most 30 more than those of the second;
  \<^item> of two passwords with the same number of classes, the longer (or equally long) one
    scores at least as much as the shorter exactly when the shorter scores 0 or the net
    deductions of the longer exceed those of the shorter by no more than the difference
    of their points for length.
\<close>

theorem strength_monotone:
  "(length p = length q \<and> charTypeCount p = 4 \<and> charTypeCount q = 1 \<longrightarrow>
      (Score (CheckStrength tbl d q) \<le> Score (CheckStrength tbl d p) \<longleftrightarrow>
         Score (CheckStrength tbl d q) = 0
         \<or> netDeductions tbl d p \<le> netDeductions tbl d q + 30))
   \<and> (charTypeCount p = charTypeCount q \<and> length q \<le> length p \<longrightarrow>
      (Score (CheckStrength tbl d q) \<le> Score (CheckStrength tbl d p) \<longleftrightarrow>
         Score (CheckStrength tbl d q) = 0
         \<or> netDeductions tbl d p
             \<le> netDeductions tbl d q + (lengthPoints p - lengthPoints q)))"
proof (intro conjI impI)
  assume a: "length p = length q \<and> charTypeCount p = 4 \<and> charTypeCount q = 1"
  then have e: "p = [] \<longrightarrow> q = []" by auto
  have "lengthPoints p = lengthPoints q" using a by (simp add: lengthPoints_def)
  then show "Score (CheckStrength tbl d q) \<le> Score (CheckStrength tbl d p) \<longleftrightarrow>
         Score (CheckStrength tbl d q) = 0
         \<or> netDeductions tbl d p \<le> netDeductions tbl d q + 30"
    unfolding Score_compare[OF e] using a by simp
next
  assume a: "charTypeCount p = charTypeCount q \<and> length q \<le> length p"
  then have e: "p = [] \<longrightarrow> q = []" by auto
  show "Score (CheckStrength tbl d q) \<le> Score (CheckStrength tbl d p) \<longleftrightarrow>
         Score (CheckStrength tbl d q) = 0
         \<or> netDeductions tbl d p
             \<le> netDeductions tbl d q + (lengthPoints p - lengthPoints q)"
    unfolding Score_compare[OF e] using a by simp
qed

text \<open>
  The theorem on pairs whose deductions differ. At eight characters, four classes without
  penalty against one class with a sequence and no uniqueness bonus; and twelve letters
  without penalty against eight letters with a keyboard run.
\<close>

theorem strength_monotone_witness:
  "\<forall>tbl.
     length ''Xk9#mqzw'' = length ''abcabcab''
   \<and> charTypeCount ''Xk9#mqzw'' = 4 \<and> charTypeCount ''abcabcab'' = 1
   \<and> netDeductions tbl True ''Xk9#mqzw'' = - 10 \<and> netDeductions tbl True ''abcabcab'' = 10
   \<and> Score (CheckStrength tbl True ''abcabcab'') \<le> Score (CheckStrength tbl True ''Xk9#mqzw'')
   \<and> charTypeCount ''mqzkxwpjvhtr'' = charTypeCount ''qwertyui''
   \<and> length ''qwertyui'' \<le> length ''mqzkxwpjvhtr''
   \<and> netDeductions tbl True ''mqzkxwpjvhtr'' = - 10 \<and> netDeductions tbl True ''qwertyui'' = 0
   \<and> lengthPoints ''mqzkxwpjvhtr'' = 30 \<and> lengthPoints ''qwertyui'' = 20
   \<and> Score (CheckStrength tbl True ''qwertyui'') \<le> Score (CheckStrength tbl True ''mqzkxwpjvhtr'')"
proof
  fix tbl :: "nat \<Rightarrow> nat"
  have a: "length ''Xk9#mqzw'' = length ''abcabcab''"
    "charTypeCount ''Xk9#mqzw'' = 4" "charTypeCount ''abcabcab'' = 1"
    "netDeductions tbl True ''Xk9#mqzw'' = - 10" "netDeductions tbl True ''abcabcab'' = 10"
    by code_simp+
  have b: "charTypeCount ''mqzkxwpjvhtr'' = charTypeCount ''qwertyui''"
    "length ''qwertyui'' \<le> length ''mqzkxwpjvhtr''"
    "netDeductions tbl True ''mqzkxwpjvhtr'' = - 10" "netDeductions tbl True ''qwertyui'' = 0"
    "lengthPoints ''mqzkxwpjvhtr'' = 30" "lengthPoints ''qwertyui'' = 20"
    by code_simp+
  from strength_monotone[of "''Xk9#mqzw''" "''abcabcab''" tbl True] a
  have "Score (CheckStrength tbl True ''abcabcab'') \<le> Score (CheckStrength tbl True ''Xk9#mqzw'')"
    by simp
  moreover from strength_monotone[of "''mqzkxwpjvhtr''" "''qwertyui''" tbl True] b
  have "Score (CheckStrength tbl True ''qwertyui'') \<le> Score (CheckStrength tbl True ''mqzkxwpjvhtr'')"
    by simp
  ultimately show
    "length ''Xk9#mqzw'' = length ''abcabcab''
   \<and> charTypeCount ''Xk9#mqzw'' = 4 \<and> charTypeCount ''abcabcab'' = 1
   \<and> netDeductions tbl True ''Xk9#mqzw'' = - 10 \<and> netDeductions tbl True ''abcabcab'' = 10
   \<and> Score (CheckStrength tbl True ''abcabcab'') \<le> Score (CheckStrength tbl True ''Xk9#mqzw'')
   \<and> charTypeCount ''mqzkxwpjvhtr'' = charTypeCount ''qwertyui''
   \<and> length ''qwertyui'' \<le> length ''mqzkxwpjvhtr''
   \<and> netDeductions tbl True ''mqzkxwpjvhtr'' = - 10 \<and> netDeductions tbl True ''qwertyui'' = 0
   \<and> lengthPoints ''mqzkxwpjvhtr'' = 30 \<and> lengthPoints ''qwertyui'' = 20
   \<and> Score (CheckStrength tbl True ''qwertyui'') \<le> Score (CheckStrength tbl True ''mqzkxwpjvhtr'')"
    using a b by simp
qed

text \<open>
  Claim C9 as stated fails, because the deductions and the uniqueness bonus do not follow
  the classes or the length. At twelve characters a password of four classes with a
  sequence, a repetition and a keyboard run scores 40 and a password of one class
  scores 50; in one class, nine equal letters score 20 and eight different ones 40.
\<close>

theorem strength_monotone_counterexample:
  "\<forall>tbl.
     length ''Fgh111!!!!!!'' = length ''mqzkxwpjvhtr''
   \<and> charTypeCount ''Fgh111!!!!!!'' = 4 \<and> charTypeCount ''mqzkxwpjvhtr'' = 1
   \<and> Score (CheckStrength tbl False ''Fgh111!!!!!!'') = 40
   \<and> Score (CheckStrength tbl False ''mqzkxwpjvhtr'') = 50
   \<and> charTypeCount ''aaaaaaaaa'' = charTypeCount ''mqzkxwpj''
   \<and> length ''mqzkxwpj'' < length ''aaaaaaaaa''
   \<and> Score (CheckStrength tbl False ''aaaaaaaaa'') = 20
   \<and> Score (CheckStrength tbl False ''mqzkxwpj'') = 40"
proof
  fix tbl :: "nat \<Rightarrow> nat"
  show "length ''Fgh111!!!!!!'' = length ''mqzkxwpjvhtr''
   \<and> charTypeCount ''Fgh111!!!!!!'' = 4 \<and> charTypeCount ''mqzkxwpjvhtr'' = 1
   \<and> Score (CheckStrength tbl False ''Fgh111!!!!!!'') = 40
   \<and> Score (CheckStrength tbl False ''mqzkxwpjvhtr'') = 50
   \<and> charTypeCount ''aaaaaaaaa'' = charTypeCount ''mqzkxwpj''
   \<and> length ''mqzkxwpj'' < length ''aaaaaaaaa''
   \<and> Score (CheckStrength tbl False ''aaaaaaaaa'') = 20
   \<and> Score (CheckStrength tbl False ''mqzkxwpj'') = 40"
    by code_simp
qed

subsection \<open>Hashing the empty password\<close>

text \<open>
  On the empty password \<open>PasswordHasher.Hash\<close>, and \<open>passwordManager.HashPassword\<close> which
  calls it, fail with \<open>ErrPasswordEmpty\<close> and return no encoding, whatever the bcrypt
  library would do.
\<close>

lemma PasswordHasher_rejects_empty:
  "Hash generateFromPassword h [] = Inl ErrPasswordEmpty
   \<and> passwordManager_HashPassword generateFromPassword pm [] = Inl ErrPasswordEmpty"
  by (simp add: Hash_def passwordManager_HashPassword_def)

text \<open>
  Claim C10 fails on the code for the auth service. \<open>authService.HashPassword\<close> does not
  test its input: called on the empty password under the default configuration, with
  whatever salt was read, it reports no error and returns the encoding of the salt and of
  the key derived from the empty password. The claim promises an empty-input error and no
  encoding, which is what \<open>PasswordHasher.Hash\<close> gives.
\<close>

theorem auth_service_hashes_empty_password:
  "authService_HashPassword DefaultPasswordConfig (Inr salt) []
     = Inr (Encoded salt (IDKey [] salt 1 65536 4 32))"
  by (simp add: authService_HashPassword_def DefaultPasswordConfig_def)

end
